theory Spec2Isabelle
  imports Complex_Main "HOL-Library.AList"
begin

section \<open>Numbers\<close>

text \<open>
  A JavaScript number is an IEEE double. Here it is a real in the range of the doubles,
  one of the two infinities, or \<open>NaN\<close>: a finite result beyond \<open>Number.MAX_VALUE\<close>
  overflows to an infinity, \<open>0 * Infinity\<close> is \<open>NaN\<close>, and every comparison with
  \<open>NaN\<close> is false. Rounding, underflow and the sign of zero are not modelled.
\<close>

datatype number = NaN | NegInf | Fin real | PosInf

definition MAX_VALUE :: real where
  "MAX_VALUE = (2 ^ 53 - 1) * 2 ^ 971"

definition fin :: "real \<Rightarrow> number" where
  "fin x = (if MAX_VALUE < x then PosInf else if x < - MAX_VALUE then NegInf else Fin x)"

text \<open>\<open>x * y\<close>\<close>

fun js_times :: "number \<Rightarrow> number \<Rightarrow> number" where
  "js_times NaN y = NaN"
| "js_times x NaN = NaN"
| "js_times (Fin x) (Fin y) = fin (x * y)"
| "js_times (Fin x) PosInf = (if x = 0 then NaN else if 0 < x then PosInf else NegInf)"
| "js_times (Fin x) NegInf = (if x = 0 then NaN else if 0 < x then NegInf else PosInf)"
| "js_times PosInf (Fin y) = (if y = 0 then NaN else if 0 < y then PosInf else NegInf)"
| "js_times NegInf (Fin y) = (if y = 0 then NaN else if 0 < y then NegInf else PosInf)"
| "js_times PosInf PosInf = PosInf"
| "js_times PosInf NegInf = NegInf"
| "js_times NegInf PosInf = NegInf"
| "js_times NegInf NegInf = PosInf"

text \<open>\<open>x <= y\<close> and \<open>x < y\<close>\<close>

fun js_le :: "number \<Rightarrow> number \<Rightarrow> bool" where
  "js_le NaN y = False"
| "js_le x NaN = False"
| "js_le NegInf y = True"
| "js_le x PosInf = True"
| "js_le (Fin x) (Fin y) = (x \<le> y)"
| "js_le PosInf y = False"
| "js_le x NegInf = False"

fun js_lt :: "number \<Rightarrow> number \<Rightarrow> bool" where
  "js_lt NaN y = False"
| "js_lt x NaN = False"
| "js_lt (Fin x) (Fin y) = (x < y)"
| "js_lt PosInf y = False"
| "js_lt x NegInf = False"
| "js_lt NegInf y = True"
| "js_lt x PosInf = True"

text \<open>\<open>Math.min(x, y)\<close>\<close>

fun Math_min :: "number \<Rightarrow> number \<Rightarrow> number" where
  "Math_min NaN y = NaN"
| "Math_min x NaN = NaN"
| "Math_min x y = (if js_le x y then x else y)"

text \<open>
  \<open>Math.pow(b, n)\<close> for an integer \<open>n\<close>: 1 for \<open>n = 0\<close> whatever \<open>b\<close> is, the
  power of a finite base with overflow, and the values IEEE gives for the other
  bases.
\<close>

definition Math_pow :: "number \<Rightarrow> int \<Rightarrow> number" where
  "Math_pow b n =
     (if n = 0 then Fin 1
      else if 0 < n then
        (case b of
           NaN \<Rightarrow> NaN
         | PosInf \<Rightarrow> PosInf
         | NegInf \<Rightarrow> (if even n then PosInf else NegInf)
         | Fin x \<Rightarrow> fin (x ^ nat n))
      else
        (case b of
           NaN \<Rightarrow> NaN
         | PosInf \<Rightarrow> Fin 0
         | NegInf \<Rightarrow> Fin 0
         | Fin x \<Rightarrow> (if x = 0 then PosInf else fin (inverse (x ^ nat (- n))))))"

section \<open>Values and the event bus\<close>

text \<open>
  JavaScript values as far as the checkout core builds and reads them; an object is
  the list of its own properties in insertion order. An \<open>Error\<close> object that is thrown
  as a value is the object with its \<open>message\<close>.
\<close>

datatype jsval =
    Undefined
  | Null
  | Bool bool
  | Num number
  | Str string
  | Obj "(string \<times> jsval) list"

type_synonym object = "(string \<times> jsval) list"

text \<open>A thrown \<open>Error\<close> object; only its \<open>message\<close> is ever read.\<close>

datatype Error = Error (message: string)

definition Error_val :: "Error \<Rightarrow> jsval" where
  "Error_val e = Obj [(''message'', Str (message e))]"

text \<open>
  One call of \<open>EventEmitter2.emit(event, eventData)\<close> as the subscribers receive it.
\<close>

record emitted =
  event :: string
  eventData :: object

text \<open>
  What the services act on: the events handed to the bus so far (oldest first), the
  delays waited for by \<open>RetryService.delay\<close>, the state the caller's operations close
  over, and the reading of \<open>new Date().toISOString()\<close>. Time is not modelled: the clock
  reading stays what the state says and a delay is only logged.
\<close>

record 'w runtime =
  events :: "emitted list"
  slept :: "number list"
  world :: 'w
  now :: string

text \<open>
  \<open>CheckoutEventEmitter.emitEvent\<close>, up to the delivery: the object spread
  \<open>{...data, _metadata: {...}}\<close> keeps the properties of \<open>data\<close> in place and writes
  \<open>_metadata\<close>, over a property of that name when \<open>data\<close> has one and as a new last
  property otherwise, and the event is handed to the bus. The boolean result is
  dropped, no caller reads it.
\<close>

definition emitEvent :: "string \<Rightarrow> object \<Rightarrow> 'w runtime \<Rightarrow> 'w runtime" where
  "emitEvent ev data rt =
     (let timestamp = now rt;
          eventData = AList.update ''_metadata''
            (Obj [(''event'', Str ev),
                  (''timestamp'', Str timestamp),
                  (''source'', Str ''checkout-core'')]) data
      in rt\<lparr>events := events rt @ [\<lparr>event = ev, eventData = eventData\<rparr>]\<rparr>)"

text \<open>
  \<open>this.eventEmitter.emitEvent(ev, data)\<close> as its caller sees it. \<open>EventEmitter2.emit\<close>
  runs the subscribers inside the call, and what one of them throws leaves
  \<open>emitEvent\<close>. The subscribers are the parameter \<open>subs\<close>: from the events the bus
  has been handed so far, the delivered one last, to the value thrown, \<open>None\<close> when
  they all return. Whatever else a subscriber does is outside the model.
\<close>

definition publish ::
  "(emitted list \<Rightarrow> 'x option) \<Rightarrow> string \<Rightarrow> object \<Rightarrow> 'w runtime \<Rightarrow> 'x option \<times> 'w runtime" where
  "publish subs ev data rt = (let rt1 = emitEvent ev data rt in (subs (events rt1), rt1))"

text \<open>A bus on which no subscriber throws.\<close>

definition quiet :: "(emitted list \<Rightarrow> 'x option) \<Rightarrow> bool" where
  "quiet subs = (\<forall>es. subs es = None)"



fun js_String :: "(number \<Rightarrow> string) \<Rightarrow> jsval \<Rightarrow> string" where
  "js_String num_str Undefined = ''undefined''"
| "js_String num_str Null = ''null''"
| "js_String num_str (Bool b) = (if b then ''true'' else ''false'')"
| "js_String num_str (Num r) = num_str r"
| "js_String num_str (Str s) = s"
| "js_String num_str (Obj kvs) = ''[object Object]''"

text \<open>The message of the \<open>TypeError\<close> of a property read on \<open>undefined\<close> or
  \<open>null\<close>.\<close>

definition TypeError_read :: "string \<Rightarrow> string \<Rightarrow> Error" where
  "TypeError_read v k =
     Error (''Cannot read properties of '' @ v @ '' (reading '' @ [CHR 0x27] @ k @
            [CHR 0x27] @ '')'')"

text \<open>The property read \<open>v.k\<close> for the keys the services read (\<open>message\<close>, \<open>type\<close>,
  \<open>event_type\<close>, \<open>event\<close>): a \<open>TypeError\<close> on \<open>undefined\<close> and \<open>null\<close>, the own
  property of an object, \<open>undefined\<close> otherwise.\<close>

fun get_prop :: "jsval \<Rightarrow> string \<Rightarrow> Error + jsval" where
  "get_prop Undefined k = Inl (TypeError_read ''undefined'' k)"
| "get_prop Null k = Inl (TypeError_read ''null'' k)"
| "get_prop (Obj kvs) k = Inr (case map_of kvs k of None \<Rightarrow> Undefined | Some v \<Rightarrow> v)"
| "get_prop v k = Inr Undefined"

definition nullish :: "jsval \<Rightarrow> bool" where
  "nullish v = (v = Undefined \<or> v = Null)"

section \<open>Retry service\<close>

text \<open>
  Modelled from the spec: the interface \<open>RetryConfig\<close> (\<open>./types\<close>, whose source is
  missing). The properties are the ones the service reads; \<open>maxAttempts\<close> is an
  integer, as the specification's data model has it, the delays and the factor are
  numbers, the strategy is a string, so that a strategy outside the three named ones
  can be written.
\<close>

record RetryConfig =
  maxAttempts :: int
  initialDelay :: number
  maxDelay :: number
  backoffFactor :: number
  strategy :: string

text \<open>\<open>Partial<RetryConfig>\<close>: every property may be absent.\<close>

record PartialRetryConfig =
  p_maxAttempts :: "int option"
  p_initialDelay :: "number option"
  p_maxDelay :: "number option"
  p_backoffFactor :: "number option"
  p_strategy :: "string option"

text \<open>\<open>x || d\<close> on an optional integer, number and string: absent, zero, \<open>NaN\<close> and the
  empty string are falsy.\<close>

definition or_num :: "'a::zero option \<Rightarrow> 'a \<Rightarrow> 'a" where
  "or_num x d = (case x of None \<Rightarrow> d | Some v \<Rightarrow> if v = 0 then d else v)"

definition or_number :: "number option \<Rightarrow> number \<Rightarrow> number" where
  "or_number x d = (case x of None \<Rightarrow> d | Some v \<Rightarrow> if v = Fin 0 \<or> v = NaN then d else v)"

definition or_str :: "string option \<Rightarrow> string \<Rightarrow> string" where
  "or_str x d = (case x of None \<Rightarrow> d | Some v \<Rightarrow> if v = [] then d else v)"

text \<open>A property of the trailing spread \<open>...config\<close>: a supplied value replaces the one
  written before it.\<close>

definition spread :: "'a option \<Rightarrow> 'a \<Rightarrow> 'a" where
  "spread x before = (case x of None \<Rightarrow> before | Some v \<Rightarrow> v)"

text \<open>The constructor of \<open>RetryService\<close>; \<open>None\<close> is the call without a config.\<close>

definition RetryService_config :: "PartialRetryConfig option \<Rightarrow> RetryConfig" where
  "RetryService_config config =
     (case config of
        None \<Rightarrow>
          \<lparr>maxAttempts = 3, initialDelay = Fin 1000, maxDelay = Fin 60000,
           backoffFactor = Fin 2, strategy = ''exponential''\<rparr>
      | Some c \<Rightarrow>
          \<lparr>maxAttempts = spread (p_maxAttempts c) (or_num (p_maxAttempts c) 3),
           initialDelay = spread (p_initialDelay c) (or_number (p_initialDelay c) (Fin 1000)),
           maxDelay = spread (p_maxDelay c) (or_number (p_maxDelay c) (Fin 60000)),
           backoffFactor = spread (p_backoffFactor c) (or_number (p_backoffFactor c) (Fin 2)),
           strategy = spread (p_strategy c) (or_str (p_strategy c) ''exponential'')\<rparr>)"

definition calculateDelay :: "RetryConfig \<Rightarrow> int \<Rightarrow> number" where
  "calculateDelay config attempt =
     (if strategy config = ''exponential'' then
        Math_min
          (js_times (initialDelay config) (Math_pow (backoffFactor config) (attempt - 1)))
          (maxDelay config)
      else if strategy config = ''linear'' then
        Math_min (js_times (initialDelay config) (Fin (of_int attempt))) (maxDelay config)
      else if strategy config = ''fixed'' then
        initialDelay config
      else
        Math_min (js_times (initialDelay config) (Math_pow (Fin 2) (attempt - 1)))
          (maxDelay config))"

text \<open>
  The delay of the specification's Backoff Calculator, in its words, for the 1-based
  attempt \<open>a\<close>, read in the same arithmetic: \<open>b^k\<close> is the power with a natural
  exponent, and an unrecognised strategy is the exponential one with factor 2.
\<close>

definition power_of :: "number \<Rightarrow> nat \<Rightarrow> number" where
  "power_of b k =
     (if k = 0 then Fin 1
      else case b of
             NaN \<Rightarrow> NaN
           | PosInf \<Rightarrow> PosInf
           | NegInf \<Rightarrow> (if even k then PosInf else NegInf)
           | Fin x \<Rightarrow> fin (x ^ k))"

definition spec_delay :: "RetryConfig \<Rightarrow> int \<Rightarrow> number" where
  "spec_delay config a =
     (if strategy config = ''exponential'' then
        Math_min (js_times (initialDelay config) (power_of (backoffFactor config) (nat (a - 1))))
          (maxDelay config)
      else if strategy config = ''linear'' then
        Math_min (js_times (initialDelay config) (Fin (of_int a))) (maxDelay config)
      else if strategy config = ''fixed'' then initialDelay config
      else Math_min (js_times (initialDelay config) (power_of (Fin 2) (nat (a - 1))))
             (maxDelay config))"

text \<open>
  Modelled from the spec: the interface \<open>RetryableOperation\<close> (\<open>./types\<close>, whose source
  is missing), a name and a zero-argument asynchronous action. \<open>execute\<close> is a closure
  of the caller; one call takes the state it closes over to the next one and either
  resolves with a value (\<open>Inr\<close>) or rejects with a value (\<open>Inl\<close>), which may be any
  value, \<open>undefined\<close> included.
\<close>

record 'w RetryableOperation =
  name :: string
  execute :: "'w \<Rightarrow> (jsval + jsval) \<times> 'w"

text \<open>
  The value of a context object. \<open>retryCount\<close> is the one property the service itself
  reads and writes, a count or absent; the other properties are the caller's.
\<close>

record retry_context =
  retryCount :: "nat option"
  props :: object

definition context_val :: "retry_context \<Rightarrow> jsval" where
  "context_val c =
     Obj (props c @
       (case retryCount c of None \<Rightarrow> [] | Some n \<Rightarrow> [(''retryCount'', Num (Fin (real n)))]))"

text \<open>\<open>operation.name || 'unknown'\<close>\<close>

definition op_name :: "'w RetryableOperation \<Rightarrow> jsval" where
  "op_name operation = Str (if name operation = [] then ''unknown'' else name operation)"

text \<open>\<open>await this.delay(ms)\<close>: the wait is logged.\<close>

definition delay :: "number \<Rightarrow> 'w runtime \<Rightarrow> 'w runtime" where
  "delay ms rt = rt\<lparr>slept := slept rt @ [ms]\<rparr>"

text \<open>
  The \<open>try\<close> block of \<open>executeWithRetry\<close> for the attempt numbered \<open>attempt\<close>: \<open>Inr\<close>
  the value returned, \<open>Inl\<close> the value the \<open>catch\<close> clause receives, which is what
  \<open>execute\<close> rejected with or what a subscriber of \<open>retry:attempt\<close> or
  \<open>retry:success\<close> threw. The logger calls have no effect on the state.
\<close>

definition executeWithRetry_try ::
  "(emitted list \<Rightarrow> jsval option) \<Rightarrow> RetryConfig \<Rightarrow> 'w RetryableOperation \<Rightarrow>
   retry_context \<Rightarrow> int \<Rightarrow> 'w runtime \<Rightarrow> (jsval + jsval) \<times> 'w runtime" where
  "executeWithRetry_try subs config operation context attempt rt =
     (case publish subs ''retry:attempt''
             [(''operation'', op_name operation),
              (''attempt'', Num (Fin (of_int attempt))),
              (''maxAttempts'', Num (Fin (of_int (maxAttempts config)))),
              (''context'', context_val context),
              (''timestamp'', Str (now rt))] rt of
        (Some thrown, rt1) \<Rightarrow> (Inl thrown, rt1)
      | (None, rt1) \<Rightarrow>
          (case execute operation (world rt1) of
             (Inl error, w) \<Rightarrow> (Inl error, rt1\<lparr>world := w\<rparr>)
           | (Inr result, w) \<Rightarrow>
               (case publish subs ''retry:success''
                       [(''operation'', op_name operation),
                        (''attempt'', Num (Fin (of_int attempt))),
                        (''result'', result),
                        (''context'', context_val context),
                        (''timestamp'', Str (now rt))] (rt1\<lparr>world := w\<rparr>) of
                  (Some thrown, rt2) \<Rightarrow> (Inl thrown, rt2)
                | (None, rt2) \<Rightarrow> (Inr result, rt2))))"

text \<open>
  How the \<open>catch\<close> block of \<open>executeWithRetry\<close> ends: an exception leaves the
  function, \<open>break\<close> leaves the loop, or the loop goes on.
\<close>

datatype after_catch = Thrown jsval | Break | Again

text \<open>
  The \<open>catch\<close> block for the caught value \<open>error\<close>. \<open>error.message\<close> is read when the
  payload of \<open>retry:failed\<close> is built, before anything is published: on \<open>undefined\<close>
  and \<open>null\<close> the read throws a \<open>TypeError\<close>. What a subscriber throws here is not
  caught either.
\<close>

definition executeWithRetry_catch ::
  "(emitted list \<Rightarrow> jsval option) \<Rightarrow> RetryConfig \<Rightarrow> 'w RetryableOperation \<Rightarrow>
   retry_context \<Rightarrow> int \<Rightarrow> jsval \<Rightarrow> 'w runtime \<Rightarrow> after_catch \<times> 'w runtime" where
  "executeWithRetry_catch subs config operation context attempt error rt =
     (case get_prop error ''message'' of
        Inl type_error \<Rightarrow> (Thrown (Error_val type_error), rt)
      | Inr msg \<Rightarrow>
          (case publish subs ''retry:failed''
                  [(''operation'', op_name operation),
                   (''attempt'', Num (Fin (of_int attempt))),
                   (''error'', msg),
                   (''context'', context_val context),
                   (''timestamp'', Str (now rt))] rt of
             (Some thrown, rt1) \<Rightarrow> (Thrown thrown, rt1)
           | (None, rt1) \<Rightarrow>
               if attempt = maxAttempts config then
                 (case publish subs ''retry:exhausted''
                         [(''operation'', op_name operation),
                          (''maxAttempts'', Num (Fin (of_int (maxAttempts config)))),
                          (''error'', msg),
                          (''context'', context_val context),
                          (''timestamp'', Str (now rt))] rt1 of
                    (Some thrown, rt2) \<Rightarrow> (Thrown thrown, rt2)
                  | (None, rt2) \<Rightarrow> (Break, rt2))
               else
                 (let ms = calculateDelay config attempt in
                  case publish subs ''retry:scheduled''
                         [(''operation'', op_name operation),
                          (''attempt'', Num (Fin (of_int attempt))),
                          (''nextAttempt'', Num (Fin (of_int (attempt + 1)))),
                          (''delay'', Num ms),
                          (''context'', context_val context),
                          (''timestamp'', Str (now rt))] rt1 of
                    (Some thrown, rt2) \<Rightarrow> (Thrown thrown, rt2)
                  | (None, rt2) \<Rightarrow> (Again, delay ms rt2))))"

text \<open>
  The \<open>while\<close> loop of \<open>executeWithRetry\<close>, from its head, with the values of the
  locals \<open>attempt\<close> and \<open>lastError\<close> (\<open>undefined\<close> while it is unassigned). The result
  is \<open>Inr\<close> the value returned or \<open>Inl\<close> the value thrown; after \<open>break\<close> the final
  \<open>throw lastError\<close> throws the value caught last.
\<close>

function executeWithRetry_loop ::
  "(emitted list \<Rightarrow> jsval option) \<Rightarrow> RetryConfig \<Rightarrow> 'w RetryableOperation \<Rightarrow>
   retry_context \<Rightarrow> int \<Rightarrow> jsval \<Rightarrow> 'w runtime \<Rightarrow> (jsval + jsval) \<times> 'w runtime" where
  "executeWithRetry_loop subs config operation context attempt0 lastError rt =
     (if attempt0 < maxAttempts config then
        (let attempt = attempt0 + 1 in
         case executeWithRetry_try subs config operation context attempt rt of
           (Inr result, rt1) \<Rightarrow> (Inr result, rt1)
         | (Inl error, rt1) \<Rightarrow>
             (case executeWithRetry_catch subs config operation context attempt error rt1 of
                (Thrown thrown, rt2) \<Rightarrow> (Inl thrown, rt2)
              | (Break, rt2) \<Rightarrow> (Inl error, rt2)
              | (Again, rt2) \<Rightarrow>
                  executeWithRetry_loop subs config operation context attempt error rt2))
      else (Inl lastError, rt))"
  by pat_completeness auto
termination
  by (relation "measure (\<lambda>(subs, config, operation, context, attempt0, lastError, rt).
        nat (maxAttempts config - attempt0))") auto

definition executeWithRetry ::
  "(emitted list \<Rightarrow> jsval option) \<Rightarrow> RetryConfig \<Rightarrow> 'w RetryableOperation \<Rightarrow>
   retry_context \<Rightarrow> 'w runtime \<Rightarrow> (jsval + jsval) \<times> 'w runtime" where
  "executeWithRetry subs config operation context rt =
     executeWithRetry_loop subs config operation context 0 Undefined rt"

text \<open>
  The caller's context objects live in a heap, from addresses to values. A queued
  item, as \<open>queueForRetry\<close> builds it, keeps the object it was given: its \<open>context\<close>
  is the address of that object, which other items and the caller may hold too.
\<close>

type_synonym contexts = "nat \<Rightarrow> retry_context"

record 'w RetryQueueItem =
  operation :: "'w RetryableOperation"
  "context" :: nat
  config :: RetryConfig
  createdAt :: string

text \<open>
  Modelled from the spec: the class \<open>RetryQueue\<close> (\<open>./retry-queue\<close>), whose source is
  missing. The specification gives it \<open>add(item)\<close>, \<open>getPending()\<close>, the not yet
  resolved items in insertion order, taken as a snapshot, and \<open>remove(item)\<close>, which
  removes by identity. The identity of an item object is the reference it gets when it
  is added.
\<close>

record 'w RetryQueue =
  pending :: "(nat \<times> 'w RetryQueueItem) list"
  next_ref :: nat

text \<open>Modelled from the spec: \<open>RetryQueue.add\<close> appends the item, which gets the next
  reference.\<close>

definition add :: "'w RetryQueueItem \<Rightarrow> 'w RetryQueue \<Rightarrow> 'w RetryQueue" where
  "add item q = q\<lparr>pending := pending q @ [(next_ref q, item)], next_ref := Suc (next_ref q)\<rparr>"

text \<open>Modelled from the spec: \<open>RetryQueue.getPending\<close> returns the pending items in
  insertion order.\<close>

definition getPending :: "'w RetryQueue \<Rightarrow> (nat \<times> 'w RetryQueueItem) list" where
  "getPending q = pending q"

text \<open>Modelled from the spec: \<open>RetryQueue.remove\<close> takes out the item with the given
  identity and no other.\<close>

definition remove :: "nat \<Rightarrow> 'w RetryQueue \<Rightarrow> 'w RetryQueue" where
  "remove ref q = q\<lparr>pending := filter (\<lambda>(r, item). r \<noteq> ref) (pending q)\<rparr>"

text \<open>The assignment \<open>item.context.retryCount = n\<close>: it writes to the object at the
  item's context address, whoever else holds it.\<close>

definition set_retryCount :: "nat \<Rightarrow> nat \<Rightarrow> contexts \<Rightarrow> contexts" where
  "set_retryCount addr n ctxs = ctxs(addr := (ctxs addr)\<lparr>retryCount := Some n\<rparr>)"

text \<open>\<open>queueForRetry\<close> with the context object at the address \<open>ctx\<close>. The item is in
  the queue when \<open>retry:queued\<close> is published.\<close>

definition queueForRetry ::
  "(emitted list \<Rightarrow> jsval option) \<Rightarrow> RetryConfig \<Rightarrow> 'w RetryableOperation \<Rightarrow> nat \<Rightarrow>
   contexts \<Rightarrow> 'w RetryQueue \<times> 'w runtime \<Rightarrow> (jsval + unit) \<times> 'w RetryQueue \<times> 'w runtime" where
  "queueForRetry subs this_config op ctx ctxs st =
     (case st of (q, rt) \<Rightarrow>
        (let retryItem = \<lparr>operation = op, context = ctx, config = this_config,
                          createdAt = now rt\<rparr>;
             q1 = add retryItem q
         in case publish subs ''retry:queued''
                   [(''operation'', op_name op),
                    (''context'', context_val (ctxs ctx)),
                    (''timestamp'', Str (now rt))] rt of
              (Some thrown, rt1) \<Rightarrow> (Inl thrown, q1, rt1)
            | (None, rt1) \<Rightarrow> (Inr (), q1, rt1)))"

text \<open>
  The \<open>for\<close> loop of \<open>processRetryQueue\<close> over the snapshot \<open>items\<close>. The inner
  \<open>executeWithRetry\<close> runs under the service's own config, with the context object as
  it is when the item's turn comes; the threshold is read from the item's config. In
  the \<open>catch\<close> block \<open>error.message\<close> is read while the payload of
  \<open>retry:queue:item:failed\<close> is built, after the item has been removed: on
  \<open>undefined\<close> and \<open>null\<close> that read throws a \<open>TypeError\<close>, which leaves
  \<open>processRetryQueue\<close>, as does what a subscriber of that event throws.
\<close>

fun processRetryQueue_loop ::
  "(emitted list \<Rightarrow> jsval option) \<Rightarrow> RetryConfig \<Rightarrow> (nat \<times> 'w RetryQueueItem) list \<Rightarrow>
   'w RetryQueue \<Rightarrow> contexts \<Rightarrow> 'w runtime \<Rightarrow>
   (jsval + unit) \<times> 'w RetryQueue \<times> contexts \<times> 'w runtime" where
  "processRetryQueue_loop subs this_config [] q ctxs rt = (Inr (), q, ctxs, rt)"
| "processRetryQueue_loop subs this_config ((ref, item) # items) q ctxs rt =
     (case executeWithRetry subs this_config (operation item) (ctxs (context item)) rt of
        (Inr result, rt1) \<Rightarrow>
          processRetryQueue_loop subs this_config items (remove ref q) ctxs rt1
      | (Inl error, rt1) \<Rightarrow>
          (let n = or_num (retryCount (ctxs (context item))) 0 + 1;
               ctxs1 = set_retryCount (context item) n ctxs
           in if int n \<ge> maxAttempts (config item) then
                (let q2 = remove ref q in
                 case get_prop error ''message'' of
                   Inl type_error \<Rightarrow> (Inl (Error_val type_error), q2, ctxs1, rt1)
                 | Inr msg \<Rightarrow>
                     (case publish subs ''retry:queue:item:failed''
                             [(''operation'', op_name (operation item)),
                              (''retryCount'', Num (Fin (real n))),
                              (''error'', msg),
                              (''timestamp'', Str (now rt1))] rt1 of
                        (Some thrown, rt2) \<Rightarrow> (Inl thrown, q2, ctxs1, rt2)
                      | (None, rt2) \<Rightarrow>
                          processRetryQueue_loop subs this_config items q2 ctxs1 rt2))
              else processRetryQueue_loop subs this_config items q ctxs1 rt1))"

definition processRetryQueue ::
  "(emitted list \<Rightarrow> jsval option) \<Rightarrow> RetryConfig \<Rightarrow> 'w RetryQueue \<Rightarrow> contexts \<Rightarrow>
   'w runtime \<Rightarrow> (jsval + unit) \<times> 'w RetryQueue \<times> contexts \<times> 'w runtime" where
  "processRetryQueue subs this_config q ctxs rt =
     processRetryQueue_loop subs this_config (getPending q) q ctxs rt"

section \<open>Webhook handler\<close>






text \<open>
  The property read \<open>obj[key]\<close> on an object literal goes through the prototype chain:
  it finds an own property, or else a property inherited from \<open>Object.prototype\<close>
  (a built-in function or object, truthy and not a string), or else nothing.
\<close>

definition Object_prototype_keys :: "string list" where
  "Object_prototype_keys =
     [''constructor'', ''__defineGetter__'', ''__defineSetter__'', ''hasOwnProperty'',
      ''__lookupGetter__'', ''__lookupSetter__'', ''isPrototypeOf'',
      ''propertyIsEnumerable'', ''toString'', ''valueOf'', ''__proto__'',
      ''toLocaleString'']"

datatype 'a lookup = Own 'a | Inherited | Missing

definition js_index :: "(string \<times> 'a) list \<Rightarrow> string \<Rightarrow> 'a lookup" where
  "js_index kvs k =
     (case map_of kvs k of
        Some v \<Rightarrow> Own v
      | None \<Rightarrow> if k \<in> set Object_prototype_keys then Inherited else Missing)"

text \<open>The table \<open>maps\<close> of \<open>getEventMap\<close>.\<close>

definition maps :: "(string \<times> (string \<times> string) list) list" where
  "maps =
     [(''stripe'',
       [(''payment_intent.succeeded'', ''payment:captured''),
        (''payment_intent.payment_failed'', ''payment:failed''),
        (''charge.refunded'', ''payment:refunded''),
        (''customer.subscription.created'', ''subscription:created''),
        (''customer.subscription.updated'', ''subscription:updated''),
        (''customer.subscription.deleted'', ''subscription:cancelled''),
        (''invoice.payment_succeeded'', ''subscription:invoice:paid''),
        (''invoice.payment_failed'', ''subscription:invoice:payment:failed'')]),
      (''paypal'',
       [(''PAYMENT.CAPTURE.COMPLETED'', ''payment:captured''),
        (''PAYMENT.CAPTURE.DENIED'', ''payment:declined''),
        (''PAYMENT.CAPTURE.REFUNDED'', ''payment:refunded''),
        (''BILLING.SUBSCRIPTION.ACTIVATED'', ''subscription:activated''),
        (''BILLING.SUBSCRIPTION.CANCELLED'', ''subscription:cancelled''),
        (''BILLING.SUBSCRIPTION.EXPIRED'', ''subscription:expired'')])]"

text \<open>\<open>getEventMap\<close>, that is \<open>maps[provider] || {}\<close>: one of the two tables, the empty
  object, or, for a provider that names a property of \<open>Object.prototype\<close>, that
  built-in value, which is \<open>None\<close> here.\<close>

definition getEventMap :: "string \<Rightarrow> (string \<times> string) list option" where
  "getEventMap prov =
     (case js_index maps prov of
        Own m \<Rightarrow> Some m
      | Inherited \<Rightarrow> None
      | Missing \<Rightarrow> Some [])"

text \<open>\<open>eventMap[eventType] || `webhook:${provider}:${eventType}`\<close>: the name of the
  internal event, or \<open>None\<close> when a read went to a built-in and the value is not
  known to be a string.\<close>

definition internalEvent :: "(number \<Rightarrow> string) \<Rightarrow> string \<Rightarrow> jsval \<Rightarrow> string option" where
  "internalEvent num_str prov eventType =
     (case getEventMap prov of
        None \<Rightarrow> None
      | Some eventMap \<Rightarrow>
          (let fallback = ''webhook:'' @ prov @ '':'' @ js_String num_str eventType
           in case js_index eventMap (js_String num_str eventType) of
                Own v \<Rightarrow> Some (if v = [] then fallback else v)
              | Inherited \<Rightarrow> None
              | Missing \<Rightarrow> Some fallback))"

text \<open>
  \<open>routeWebhookEvent\<close>. What it does once a read has gone to a built-in depends on
  the built-in objects and on the bus library, whose sources are not part of the
  repository: it is the parameter \<open>off_table\<close>. \<open>'x\<close> is the type of the values
  thrown.
\<close>

definition routeWebhookEvent ::
  "(string \<Rightarrow> jsval \<Rightarrow> jsval \<Rightarrow> 'w runtime \<Rightarrow> ('x + unit) \<times> 'w runtime) \<Rightarrow>
   (emitted list \<Rightarrow> 'x option) \<Rightarrow> (number \<Rightarrow> string) \<Rightarrow> string \<Rightarrow> jsval \<Rightarrow> jsval \<Rightarrow>
   'w runtime \<Rightarrow> ('x + unit) \<times> 'w runtime" where
  "routeWebhookEvent off_table subs num_str prov eventType pl rt =
     (case internalEvent num_str prov eventType of
        None \<Rightarrow> off_table prov eventType pl rt
      | Some internal \<Rightarrow>
          (case publish subs internal
                  [(''provider'', Str prov),
                   (''originalEvent'', eventType),
                   (''payload'', pl),
                   (''timestamp'', Str (now rt))] rt of
             (Some thrown, rt1) \<Rightarrow> (Inl thrown, rt1)
           | (None, rt1) \<Rightarrow>
               (case publish subs ''webhook:event''
                       [(''provider'', Str prov),
                        (''eventType'', eventType),
                        (''payload'', pl),
                        (''timestamp'', Str (now rt))] rt1 of
                  (Some thrown, rt2) \<Rightarrow> (Inl thrown, rt2)
                | (None, rt2) \<Rightarrow> (Inr (), rt2))))"

text \<open>Subscribers that return.\<close>

definition no_throw :: "emitted list \<Rightarrow> 'x option" where
  "no_throw es = None"



section \<open>Reading what a call published\<close>

text \<open>The events a call added to the bus, and how many of them carry a given name.\<close>

definition published :: "'w runtime \<Rightarrow> 'w runtime \<Rightarrow> emitted list" where
  "published rt rt' = drop (length (events rt)) (events rt')"

definition count_events :: "string \<Rightarrow> emitted list \<Rightarrow> nat" where
  "count_events n es = length (filter (\<lambda>e. event e = n) es)"

section \<open>Ranges of numbers\<close>

text \<open>Numbers that are at least 0, and at least 1.\<close>

fun ge0 :: "number \<Rightarrow> bool" where
  "ge0 PosInf = True"
| "ge0 (Fin x) = (0 \<le> x)"
| "ge0 i = False"

fun ge1 :: "number \<Rightarrow> bool" where
  "ge1 PosInf = True"
| "ge1 (Fin y) = (1 \<le> y)"
| "ge1 p = False"

section \<open>Example inputs\<close>

text \<open>A runtime with an empty bus, whose operations close over a call counter.\<close>

definition example_runtime :: "nat runtime" where
  "example_runtime = \<lparr>events = [], slept = [], world = 0, now = ''2024-01-01T00:00:00.000Z''\<rparr>"

text \<open>The default context \<open>{}\<close>, and a heap whose objects all have that value.\<close>

definition empty_context :: retry_context where
  "empty_context = \<lparr>retryCount = None, props = []\<rparr>"

definition example_contexts :: contexts where
  "example_contexts = (\<lambda>addr. empty_context)"

text \<open>An operation that rejects on every call, each time with an \<open>Error\<close> of another
  message.\<close>

definition failing_op :: "nat RetryableOperation" where
  "failing_op =
     \<lparr>name = ''charge'',
      execute = (\<lambda>n. (Inl (Error_val (Error (''failure '' @ replicate (Suc n) CHR ''I''))),
                      Suc n))\<rparr>"

text \<open>An operation that rejects on its first call and resolves from then on.\<close>

definition flaky_op :: "nat RetryableOperation" where
  "flaky_op =
     \<lparr>name = ''charge'',
      execute = (\<lambda>n. if n = 0 then (Inl (Error_val (Error ''timeout'')), Suc n)
                     else (Inr (Str ''paid''), Suc n))\<rparr>"

text \<open>An operation that resolves on every call.\<close>

definition succeeding_op :: "nat RetryableOperation" where
  "succeeding_op = \<lparr>name = ''charge'', execute = (\<lambda>n. (Inr (Str ''paid''), Suc n))\<rparr>"

text \<open>Operations that reject with \<open>undefined\<close> (\<open>Promise.reject()\<close>): on every call,
  and on the first call only.\<close>

definition rejecting_op :: "nat RetryableOperation" where
  "rejecting_op = \<lparr>name = ''charge'', execute = (\<lambda>n. (Inl Undefined, Suc n))\<rparr>"

definition rejecting_once_op :: "nat RetryableOperation" where
  "rejecting_once_op =
     \<lparr>name = ''charge'',
      execute = (\<lambda>n. if n = 0 then (Inl Undefined, Suc n) else (Inr (Str ''paid''), Suc n))\<rparr>"

text \<open>
  Subscribers that throw: one of \<open>retry:success\<close> that throws an \<open>Error\<close> the first
  time it runs, one of \<open>retry:failed\<close> that throws an \<open>Error\<close> every time, and one of
  \<open>retry:exhausted\<close> that throws \<open>undefined\<close>.
\<close>

definition subscriber_error :: jsval where
  "subscriber_error = Error_val (Error ''subscriber failed'')"

definition first_success_throws :: "emitted list \<Rightarrow> jsval option" where
  "first_success_throws es =
     (if es \<noteq> [] \<and> event (last es) = ''retry:success'' \<and>
         count_events ''retry:success'' es = 1
      then Some subscriber_error else None)"

definition failed_throws :: "emitted list \<Rightarrow> jsval option" where
  "failed_throws es =
     (if es \<noteq> [] \<and> event (last es) = ''retry:failed'' then Some subscriber_error else None)"

definition exhausted_throws :: "emitted list \<Rightarrow> jsval option" where
  "exhausted_throws es =
     (if es \<noteq> [] \<and> event (last es) = ''retry:exhausted'' then Some Undefined else None)"

text \<open>The constructor arguments \<open>{ maxAttempts: 0 }\<close>, \<open>{ maxAttempts: 1 }\<close> and
  \<open>{ maxAttempts: 2 }\<close>.\<close>

definition zero_attempts :: PartialRetryConfig where
  "zero_attempts =
     \<lparr>p_maxAttempts = Some 0, p_initialDelay = None, p_maxDelay = None,
      p_backoffFactor = None, p_strategy = None\<rparr>"

definition one_attempt :: PartialRetryConfig where
  "one_attempt =
     \<lparr>p_maxAttempts = Some 1, p_initialDelay = None, p_maxDelay = None,
      p_backoffFactor = None, p_strategy = None\<rparr>"

definition two_attempts :: PartialRetryConfig where
  "two_attempts =
     \<lparr>p_maxAttempts = Some 2, p_initialDelay = None, p_maxDelay = None,
      p_backoffFactor = None, p_strategy = None\<rparr>"

text \<open>A config within the constraints of the specification's data model whose factor
  is \<open>Number.MAX_VALUE\<close> and whose initial delay is 0.\<close>

definition overflowing_config :: RetryConfig where
  "overflowing_config =
     \<lparr>maxAttempts = 3, initialDelay = Fin 0, maxDelay = Fin 60000,
      backoffFactor = Fin MAX_VALUE, strategy = ''exponential''\<rparr>"

text \<open>A queue holding one item, put there by \<open>queueForRetry\<close> of a service built from
  \<open>{ maxAttempts: 1 }\<close>, with the context object at address 0.\<close>

definition empty_queue :: "nat RetryQueue" where
  "empty_queue = \<lparr>pending = [], next_ref = 0\<rparr>"

definition queued_item :: "nat RetryQueueItem" where
  "queued_item =
     \<lparr>operation = failing_op, context = 0,
      config = RetryService_config (Some one_attempt),
      createdAt = ''2024-01-01T00:00:00.000Z''\<rparr>"

definition queued_once :: "nat RetryQueue \<times> nat runtime" where
  "queued_once =
     snd (queueForRetry no_throw (RetryService_config (Some one_attempt)) failing_op 0
            example_contexts (empty_queue, example_runtime))"

text \<open>The same for a service built from \<open>{ maxAttempts: 0 }\<close>.\<close>

definition zero_item :: "nat RetryQueueItem" where
  "zero_item =
     \<lparr>operation = failing_op, context = 0,
      config = RetryService_config (Some zero_attempts),
      createdAt = ''2024-01-01T00:00:00.000Z''\<rparr>"

definition queued_zero :: "nat RetryQueue \<times> nat runtime" where
  "queued_zero =
     snd (queueForRetry no_throw (RetryService_config (Some zero_attempts)) failing_op 0
            example_contexts (empty_queue, example_runtime))"

text \<open>A queue of a service built from \<open>{ maxAttempts: 2 }\<close> holding two items that were
  queued with one and the same context object.\<close>

definition shared_item :: "nat RetryQueueItem" where
  "shared_item =
     \<lparr>operation = failing_op, context = 0,
      config = RetryService_config (Some two_attempts),
      createdAt = ''2024-01-01T00:00:00.000Z''\<rparr>"

definition queued_shared :: "nat RetryQueue \<times> nat runtime" where
  "queued_shared =
     snd (queueForRetry no_throw (RetryService_config (Some two_attempts)) failing_op 0
            example_contexts
            (snd (queueForRetry no_throw (RetryService_config (Some two_attempts)) failing_op 0
                    example_contexts (empty_queue, example_runtime))))"

text \<open>A Stripe webhook with a signature that does not match the secret, a signature
  check that compares the two, a rendering of numbers, and a stand-in for the
  behaviour on built-in properties, which the examples do not reach.\<close>

definition render_none :: "number \<Rightarrow> string" where
  "render_none r = ''NaN''"




definition unreached ::
  "string \<Rightarrow> jsval \<Rightarrow> jsval \<Rightarrow> 'w runtime \<Rightarrow> ('x + unit) \<times> 'w runtime" where
  "unreached prov eventType pl rt = (Inr (), rt)"

section \<open>Auxiliary facts\<close>

subsection \<open>Numbers\<close>

lemma MAX_VALUE_ge: "2 ^ 971 \<le> MAX_VALUE"
proof -
  have "(1::real) * 2 ^ 971 \<le> (2 ^ 53 - 1) * 2 ^ 971"
    by (intro mult_right_mono) simp_all
  then show ?thesis by (simp add: MAX_VALUE_def)
qed

lemma MAX_VALUE_gt1: "1 < MAX_VALUE"
proof -
  have "(1::real) < 2 ^ 971" by (rule one_less_power) simp_all
  with MAX_VALUE_ge show ?thesis by simp
qed

lemma MAX_VALUE_pos: "0 < MAX_VALUE"
  using MAX_VALUE_gt1 by simp

lemma MAX_VALUE_ge_million: "10 ^ 6 \<le> MAX_VALUE"
proof -
  have "(10::real) ^ 6 \<le> 2 ^ 20" by simp
  also have "(2::real) ^ 20 \<le> 2 ^ 971" by (rule power_increasing) simp_all
  finally show ?thesis using MAX_VALUE_ge by simp
qed

lemma fin_Fin: "- (10 ^ 6) \<le> x \<Longrightarrow> x \<le> 10 ^ 6 \<Longrightarrow> fin x = Fin x"
  using MAX_VALUE_ge_million by (simp add: fin_def)

lemma Math_pow_MAX_VALUE: "Math_pow (Fin MAX_VALUE) 2 = PosInf"
proof -
  have "MAX_VALUE * 1 < MAX_VALUE * MAX_VALUE"
    using MAX_VALUE_gt1 by (intro mult_strict_left_mono) simp_all
  then have "MAX_VALUE < MAX_VALUE ^ 2" by (simp add: power2_eq_square)
  then have "fin (MAX_VALUE ^ 2) = PosInf" by (simp add: fin_def)
  moreover have "Math_pow (Fin MAX_VALUE) 2 = fin (MAX_VALUE ^ nat 2)"
    by (simp add: Math_pow_def)
  ultimately show ?thesis by simp
qed

lemma Math_pow_nat: "0 \<le> n \<Longrightarrow> Math_pow b n = power_of b (nat n)"
  by (auto simp: Math_pow_def power_of_def even_nat_iff split: number.splits)

lemma ge0_alt: "ge0 i = (i = PosInf \<or> (\<exists>x. i = Fin x \<and> 0 \<le> x))"
  by (cases i) simp_all

lemma ge1_alt: "ge1 p = (p = PosInf \<or> (\<exists>y. p = Fin y \<and> 1 \<le> y))"
  by (cases p) simp_all

lemma fin_mono: "u \<le> v \<Longrightarrow> js_le (fin u) (fin v)"
  by (auto simp: fin_def)

lemma fin_not_NaN [simp]: "fin u \<noteq> NaN"
  by (simp add: fin_def)

lemma js_le_refl: "x \<noteq> NaN \<Longrightarrow> js_le x x"
  by (cases x) simp_all

lemma Math_min_le: "x \<noteq> NaN \<Longrightarrow> y \<noteq> NaN \<Longrightarrow> js_le (Math_min x y) y"
  by (cases x; cases y) auto

lemma Math_min_mono:
  "x \<noteq> NaN \<Longrightarrow> x' \<noteq> NaN \<Longrightarrow> y \<noteq> NaN \<Longrightarrow> js_le x x' \<Longrightarrow>
   js_le (Math_min x y) (Math_min x' y)"
  by (cases x; cases x'; cases y) auto

lemma ge0_iff: "js_le (Fin 0) i = ge0 i"
  by (cases i) (auto simp: ge0_alt)

lemma fin_ge1: "1 \<le> y \<Longrightarrow> ge1 (fin y)"
proof -
  assume "1 \<le> y"
  moreover have "0 < MAX_VALUE" by (rule MAX_VALUE_pos)
  ultimately show ?thesis by (auto simp: fin_def ge1_alt)
qed

lemma Math_pow_ge1:
  assumes "js_lt (Fin 1) bf" and "0 \<le> k"
  shows "ge1 (Math_pow bf k)"
proof (cases bf)
  case (Fin y)
  with assms(1) have "1 \<le> y ^ nat k" by (simp add: one_le_power)
  from fin_ge1[OF this] Fin assms(2) show ?thesis
    by (auto simp: Math_pow_def ge1_alt)
qed (use assms in \<open>auto simp: Math_pow_def ge1_alt\<close>)

lemma Math_pow_mono:
  assumes "js_lt (Fin 1) bf" and "0 \<le> k" and "k \<le> k'"
  shows "js_le (Math_pow bf k) (Math_pow bf k')"
proof (cases bf)
  case (Fin y)
  with assms have "y ^ nat k \<le> y ^ nat k'" by (intro power_increasing) simp_all
  from fin_mono[OF this] have m: "js_le (fin (y ^ nat k)) (fin (y ^ nat k'))" .
  have one: "js_le (Fin 1) (fin (y ^ nat k'))"
    using fin_ge1[of "y ^ nat k'"] Fin assms(1) by (auto simp: ge1_alt one_le_power)
  from m one Fin assms(2,3) show ?thesis
    by (auto simp: Math_pow_def)
qed (use assms in \<open>auto simp: Math_pow_def\<close>)

lemma fin_ge0: "0 \<le> u \<Longrightarrow> ge0 (fin u)"
  using MAX_VALUE_pos by (auto simp: fin_def ge0_alt)

lemma fin_le_PosInf [simp]: "js_le (fin u) PosInf"
  by (simp add: fin_def)

lemma js_times_ge0:
  assumes "ge0 i" and "ge1 p" and "\<not> (i = Fin 0 \<and> p = PosInf)"
  shows "ge0 (js_times i p)"
proof (cases i)
  case (Fin x)
  with assms(1) have x: "0 \<le> x" by (simp add: ge0_alt)
  show ?thesis
  proof (cases p)
    case (Fin y)
    with assms(2) have "0 \<le> y" by (simp add: ge1_alt)
    with x have "0 \<le> x * y" by simp
    from fin_ge0[OF this] \<open>i = Fin x\<close> Fin show ?thesis by simp
  next
    case PosInf
    with assms(3) Fin x have "0 < x" by simp
    with Fin PosInf show ?thesis by (simp add: ge0_alt)
  qed (use assms(2) in \<open>simp_all add: ge1_alt\<close>)
next
  case PosInf
  with assms(2) show ?thesis by (auto simp: ge0_alt ge1_alt)
qed (use assms(1) in \<open>simp_all add: ge0_alt\<close>)

lemma ge0_not_NaN: "ge0 x \<Longrightarrow> x \<noteq> NaN"
  by (auto simp: ge0_alt)

lemma js_times_mono:
  assumes "ge0 i" and "ge1 p" and "ge1 p'" and "js_le p p'"
      and "\<not> (i = Fin 0 \<and> p' = PosInf)"
  shows "js_le (js_times i p) (js_times i p')"
proof (cases i)
  case (Fin x)
  with assms(1) have x: "0 \<le> x" by (simp add: ge0_alt)
  show ?thesis
  proof (cases p')
    case PosInf
    with assms(5) Fin x have "0 < x" by simp
    with Fin PosInf assms(2) show ?thesis by (auto simp: ge1_alt)
  next
    case p': (Fin y')
    with assms(2,4) obtain y where p: "p = Fin y" and "y \<le> y'"
      by (cases p) (auto simp: ge1_alt)
    with x have "x * y \<le> x * y'" by (intro mult_left_mono)
    from fin_mono[OF this] Fin p p' show ?thesis by simp
  qed (use assms(3) in \<open>simp_all add: ge1_alt\<close>)
next
  case PosInf
  with assms(2,3) show ?thesis by (auto simp: ge1_alt)
qed (use assms(1) in \<open>simp_all add: ge0_alt\<close>)

lemma calculateDelay_ge0:
  assumes i: "ge0 (initialDelay cfg)" and bf: "js_lt (Fin 1) (backoffFactor cfg)"
      and a: "1 \<le> a"
      and ok: "\<not> (strategy cfg = ''exponential'' \<and> initialDelay cfg = Fin 0 \<and>
                  Math_pow (backoffFactor cfg) (a - 1) = PosInf)"
      and s: "strategy cfg \<in> {''exponential'', ''linear''}"
  shows "ge0 (if strategy cfg = ''exponential''
              then js_times (initialDelay cfg) (Math_pow (backoffFactor cfg) (a - 1))
              else js_times (initialDelay cfg) (Fin (of_int a)))"
proof (cases "strategy cfg = ''exponential''")
  case True
  from a have "0 \<le> a - 1" by simp
  from Math_pow_ge1[OF bf this] have "ge1 (Math_pow (backoffFactor cfg) (a - 1))" .
  from js_times_ge0[OF i this] ok True show ?thesis by simp
next
  case False
  from a have "ge1 (Fin (of_int a))" by (simp add: ge1_alt)
  from js_times_ge0[OF i this] False show ?thesis by simp
qed

subsection \<open>The event bus and the retry loop\<close>

declare executeWithRetry_loop.simps [simp del]

lemma emitEvent_sel [simp]:
  "events (emitEvent ev d rt) =
     events rt @ [\<lparr>event = ev, eventData = AList.update ''_metadata''
        (Obj [(''event'', Str ev), (''timestamp'', Str (now rt)),
              (''source'', Str ''checkout-core'')]) d\<rparr>]"
  "world (emitEvent ev d rt) = world rt"
  "now (emitEvent ev d rt) = now rt"
  "slept (emitEvent ev d rt) = slept rt"
  by (simp_all add: emitEvent_def)

lemma delay_sel [simp]:
  "events (delay ms rt) = events rt"
  "world (delay ms rt) = world rt"
  "now (delay ms rt) = now rt"
  "slept (delay ms rt) = slept rt @ [ms]"
  by (simp_all add: delay_def)

lemma count_events_simps [simp]:
  "count_events n [] = 0"
  "count_events n (e # es) = (if event e = n then 1 else 0) + count_events n es"
  "count_events n (es @ fs) = count_events n es + count_events n fs"
  by (simp_all add: count_events_def)

lemma count_events_map:
  "count_events n es = length (filter (\<lambda>x. x = n) (map event es))"
  by (simp add: count_events_def filter_map comp_def)

lemma published_append: "events rt' = events rt @ new \<Longrightarrow> published rt rt' = new"
  by (simp add: published_def)

lemma publish_quiet: "quiet subs \<Longrightarrow> publish subs ev d rt = (None, emitEvent ev d rt)"
  by (simp add: publish_def quiet_def Let_def)

lemma get_prop_nullish: "nullish v \<Longrightarrow> \<exists>te. get_prop v k = Inl te"
  by (auto simp: nullish_def)

lemma get_prop_value: "\<not> nullish v \<Longrightarrow> \<exists>m. get_prop v k = Inr m"
  by (cases v) (simp_all add: nullish_def)

lemma Error_val_not_nullish [simp]: "\<not> nullish (Error_val te)"
  by (simp add: nullish_def Error_val_def)

subsection \<open>The blocks of the retry loop on a quiet bus\<close>

lemma try_success:
  assumes "quiet subs" and "execute op (world rt) = (Inr r, w)"
  shows "\<exists>rt1 new. executeWithRetry_try subs cfg op ctx a rt = (Inr r, rt1) \<and>
           events rt1 = events rt @ new \<and>
           map event new = [''retry:attempt'', ''retry:success''] \<and>
           map_of (eventData (last new)) ''attempt'' = Some (Num (Fin (of_int a))) \<and>
           map_of (eventData (last new)) ''result'' = Some r \<and>
           world rt1 = w \<and> slept rt1 = slept rt \<and> now rt1 = now rt"
  using assms by (simp add: executeWithRetry_try_def publish_quiet update_conv')

lemma try_failure:
  assumes "quiet subs" and "execute op (world rt) = (Inl e, w)"
  shows "\<exists>rt1 new. executeWithRetry_try subs cfg op ctx a rt = (Inl e, rt1) \<and>
           events rt1 = events rt @ new \<and>
           map event new = [''retry:attempt''] \<and>
           world rt1 = w \<and> slept rt1 = slept rt \<and> now rt1 = now rt"
  using assms by (simp add: executeWithRetry_try_def publish_quiet)

lemma catch_nullish:
  assumes "nullish e"
  shows "\<exists>te. executeWithRetry_catch subs cfg op ctx a e rt = (Thrown (Error_val te), rt)"
  using get_prop_nullish[OF assms, of "''message''"]
  by (auto simp: executeWithRetry_catch_def)

lemma catch_exhausted:
  assumes "quiet subs" and "\<not> nullish e" and "a = maxAttempts cfg"
  shows "\<exists>rt1 new. executeWithRetry_catch subs cfg op ctx a e rt = (Break, rt1) \<and>
           events rt1 = events rt @ new \<and>
           map event new = [''retry:failed'', ''retry:exhausted''] \<and>
           world rt1 = world rt \<and> slept rt1 = slept rt \<and> now rt1 = now rt"
  using get_prop_value[OF assms(2), of "''message''"] assms(1,3)
  by (auto simp: executeWithRetry_catch_def publish_quiet)

lemma catch_again:
  assumes "quiet subs" and "\<not> nullish e" and "a \<noteq> maxAttempts cfg"
  shows "\<exists>rt1 new. executeWithRetry_catch subs cfg op ctx a e rt = (Again, rt1) \<and>
           events rt1 = events rt @ new \<and>
           map event new = [''retry:failed'', ''retry:scheduled''] \<and>
           world rt1 = world rt \<and> slept rt1 = slept rt @ [calculateDelay cfg a] \<and>
           now rt1 = now rt"
  using get_prop_value[OF assms(2), of "''message''"] assms(1,3)
  by (auto simp: executeWithRetry_catch_def publish_quiet Let_def)

subsection \<open>One pass through the retry loop on a quiet bus\<close>

lemma loop_done:
  "\<not> attempt0 < maxAttempts cfg \<Longrightarrow>
   executeWithRetry_loop subs cfg op ctx attempt0 lastError rt = (Inl lastError, rt)"
  by (subst executeWithRetry_loop.simps) simp

lemma loop_success:
  assumes "quiet subs" and "attempt0 < maxAttempts cfg"
      and "execute op (world rt) = (Inr r, w)"
  shows "\<exists>rt1 new. executeWithRetry_loop subs cfg op ctx attempt0 lastError rt =
           (Inr r, rt1) \<and> events rt1 = events rt @ new \<and>
           map event new = [''retry:attempt'', ''retry:success''] \<and>
           map_of (eventData (last new)) ''attempt'' =
             Some (Num (Fin (of_int (attempt0 + 1)))) \<and>
           map_of (eventData (last new)) ''result'' = Some r \<and>
           world rt1 = w \<and> slept rt1 = slept rt \<and> now rt1 = now rt"
proof -
  from try_success[OF assms(1,3), of cfg ctx "attempt0 + 1"]
  obtain rt1 new where t:
    "executeWithRetry_try subs cfg op ctx (attempt0 + 1) rt = (Inr r, rt1)"
    and r1: "events rt1 = events rt @ new"
      "map event new = [''retry:attempt'', ''retry:success'']"
      "map_of (eventData (last new)) ''attempt'' = Some (Num (Fin (of_int (attempt0 + 1))))"
      "map_of (eventData (last new)) ''result'' = Some r"
      "world rt1 = w" "slept rt1 = slept rt" "now rt1 = now rt"
    by (elim exE conjE) (rule that; assumption)
  have "executeWithRetry_loop subs cfg op ctx attempt0 lastError rt = (Inr r, rt1)"
    using assms(2) t by (subst executeWithRetry_loop.simps) (simp add: Let_def)
  with r1 show ?thesis
    by (intro exI[of _ rt1] exI[of _ new]) simp
qed

lemma loop_type_error:
  assumes "quiet subs" and "attempt0 < maxAttempts cfg"
      and "execute op (world rt) = (Inl e, w)" and "nullish e"
  shows "\<exists>rt1 new te. executeWithRetry_loop subs cfg op ctx attempt0 lastError rt =
           (Inl (Error_val te), rt1) \<and> events rt1 = events rt @ new \<and>
           map event new = [''retry:attempt''] \<and>
           world rt1 = w \<and> slept rt1 = slept rt \<and> now rt1 = now rt"
proof -
  from try_failure[OF assms(1,3), of cfg ctx "attempt0 + 1"]
  obtain rt1 new where t:
    "executeWithRetry_try subs cfg op ctx (attempt0 + 1) rt = (Inl e, rt1)"
    and r1: "events rt1 = events rt @ new" "map event new = [''retry:attempt'']"
           "world rt1 = w" "slept rt1 = slept rt" "now rt1 = now rt"
    by (elim exE conjE) (rule that; assumption)
  from catch_nullish[OF assms(4), of subs cfg op ctx "attempt0 + 1" rt1]
  obtain te where c:
    "executeWithRetry_catch subs cfg op ctx (attempt0 + 1) e rt1 = (Thrown (Error_val te), rt1)"
    by (elim exE) (rule that)
  have "executeWithRetry_loop subs cfg op ctx attempt0 lastError rt = (Inl (Error_val te), rt1)"
    using assms(2) t c by (subst executeWithRetry_loop.simps) (simp add: Let_def)
  with r1 show ?thesis
    by (intro exI[of _ rt1] exI[of _ new] exI[of _ te]) simp
qed

lemma loop_exhausted:
  assumes "quiet subs" and "attempt0 + 1 = maxAttempts cfg"
      and "execute op (world rt) = (Inl e, w)" and "\<not> nullish e"
  shows "\<exists>rt1 new. executeWithRetry_loop subs cfg op ctx attempt0 lastError rt =
           (Inl e, rt1) \<and> events rt1 = events rt @ new \<and>
           map event new = [''retry:attempt'', ''retry:failed'', ''retry:exhausted''] \<and>
           world rt1 = w \<and> slept rt1 = slept rt \<and> now rt1 = now rt"
proof -
  from try_failure[OF assms(1,3), of cfg ctx "attempt0 + 1"]
  obtain rt1 n1 where t:
    "executeWithRetry_try subs cfg op ctx (attempt0 + 1) rt = (Inl e, rt1)"
    and r1: "events rt1 = events rt @ n1" "map event n1 = [''retry:attempt'']"
           "world rt1 = w" "slept rt1 = slept rt" "now rt1 = now rt"
    by (elim exE conjE) (rule that; assumption)
  from catch_exhausted[OF assms(1,4,2), of op ctx rt1]
  obtain rt2 n2 where c:
    "executeWithRetry_catch subs cfg op ctx (attempt0 + 1) e rt1 = (Break, rt2)"
    and r2: "events rt2 = events rt1 @ n2" "map event n2 = [''retry:failed'', ''retry:exhausted'']"
           "world rt2 = world rt1" "slept rt2 = slept rt1" "now rt2 = now rt1"
    by (elim exE conjE) (rule that; assumption)
  have "executeWithRetry_loop subs cfg op ctx attempt0 lastError rt = (Inl e, rt2)"
    using assms(2) t c by (subst executeWithRetry_loop.simps) (simp add: Let_def)
  with r1 r2 show ?thesis
    by (intro exI[of _ rt2] exI[of _ "n1 @ n2"]) simp
qed

lemma loop_retry:
  assumes "quiet subs" and "attempt0 + 1 < maxAttempts cfg"
      and "execute op (world rt) = (Inl e, w)" and "\<not> nullish e"
  shows "\<exists>rt1 new. executeWithRetry_loop subs cfg op ctx attempt0 lastError rt =
           executeWithRetry_loop subs cfg op ctx (attempt0 + 1) e rt1 \<and>
           events rt1 = events rt @ new \<and>
           map event new = [''retry:attempt'', ''retry:failed'', ''retry:scheduled''] \<and>
           world rt1 = w \<and> slept rt1 = slept rt @ [calculateDelay cfg (attempt0 + 1)] \<and>
           now rt1 = now rt"
proof -
  from assms(2) have ne: "attempt0 + 1 \<noteq> maxAttempts cfg" by simp
  from try_failure[OF assms(1,3), of cfg ctx "attempt0 + 1"]
  obtain rt1 n1 where t:
    "executeWithRetry_try subs cfg op ctx (attempt0 + 1) rt = (Inl e, rt1)"
    and r1: "events rt1 = events rt @ n1" "map event n1 = [''retry:attempt'']"
           "world rt1 = w" "slept rt1 = slept rt" "now rt1 = now rt"
    by (elim exE conjE) (rule that; assumption)
  from catch_again[OF assms(1,4) ne, of op ctx rt1]
  obtain rt2 n2 where c:
    "executeWithRetry_catch subs cfg op ctx (attempt0 + 1) e rt1 = (Again, rt2)"
    and r2: "events rt2 = events rt1 @ n2" "map event n2 = [''retry:failed'', ''retry:scheduled'']"
           "world rt2 = world rt1" "slept rt2 = slept rt1 @ [calculateDelay cfg (attempt0 + 1)]"
           "now rt2 = now rt1"
    by (elim exE conjE) (rule that; assumption)
  have "executeWithRetry_loop subs cfg op ctx attempt0 lastError rt =
      executeWithRetry_loop subs cfg op ctx (attempt0 + 1) e rt2"
    using assms(2) t c by (subst executeWithRetry_loop.simps) (simp add: Let_def)
  with r1 r2 show ?thesis
    by (intro exI[of _ rt2] exI[of _ "n1 @ n2"]) simp
qed

lemma loop_outcome:
  assumes q: "quiet subs"
      and nn: "\<forall>w v w'. execute op w = (Inl v, w') \<longrightarrow> \<not> nullish v"
  shows "k = nat (maxAttempts cfg - attempt0) \<Longrightarrow> attempt0 < maxAttempts cfg \<Longrightarrow>
   executeWithRetry_loop subs cfg op ctx attempt0 lastError rt = (res, rt') \<Longrightarrow>
   \<exists>new. events rt' = events rt @ new \<and> new \<noteq> [] \<and>
     (case res of
        Inr r \<Rightarrow>
          count_events ''retry:success'' new = 1 \<and>
          count_events ''retry:exhausted'' new = 0 \<and>
          event (last new) = ''retry:success'' \<and>
          map_of (eventData (last new)) ''attempt'' =
            Some (Num (Fin (of_int (attempt0 + int (count_events ''retry:attempt'' new))))) \<and>
          map_of (eventData (last new)) ''result'' = Some r
      | Inl e \<Rightarrow>
          \<not> nullish e \<and>
          count_events ''retry:exhausted'' new = 1 \<and>
          count_events ''retry:success'' new = 0)"
proof (induction k arbitrary: attempt0 lastError rt)
  case 0
  then show ?case by simp
next
  case (Suc k)
  obtain out w where ex: "execute op (world rt) = (out, w)"
    by (cases "execute op (world rt)")
  show ?case
  proof (cases out)
    case (Inr r)
    from loop_success[OF q Suc.prems(2) ex[unfolded Inr], of ctx lastError]
    obtain rt1 new where s:
      "executeWithRetry_loop subs cfg op ctx attempt0 lastError rt = (Inr r, rt1)"
      "events rt1 = events rt @ new"
      "map event new = [''retry:attempt'', ''retry:success'']"
      "map_of (eventData (last new)) ''attempt'' = Some (Num (Fin (of_int (attempt0 + 1))))"
      "map_of (eventData (last new)) ''result'' = Some r"
      by (elim exE conjE) (rule that; assumption)
    from s(3) have ne: "new \<noteq> []" by auto
    from ne have "event (last new) = last (map event new)" by (simp add: last_map)
    then have l: "event (last new) = ''retry:success''" by (simp add: s(3))
    have c: "count_events ''retry:success'' new = 1" "count_events ''retry:exhausted'' new = 0"
      "count_events ''retry:attempt'' new = 1"
      by (simp_all add: count_events_map s(3))
    from s(1) Suc.prems(3) have "res = Inr r" "rt' = rt1" by simp_all
    with s ne l c show ?thesis
      by (intro exI[of _ new]) simp
  next
    case (Inl e)
    with nn ex have nonnull: "\<not> nullish e" by blast
    show ?thesis
    proof (cases "attempt0 + 1 = maxAttempts cfg")
      case True
      from loop_exhausted[OF q True ex[unfolded Inl] nonnull, of ctx lastError]
      obtain rt1 new where s:
        "executeWithRetry_loop subs cfg op ctx attempt0 lastError rt = (Inl e, rt1)"
        "events rt1 = events rt @ new"
        "map event new = [''retry:attempt'', ''retry:failed'', ''retry:exhausted'']"
        by (elim exE conjE) (rule that; assumption)
      from s(3) have ne: "new \<noteq> []" by auto
      have c: "count_events ''retry:success'' new = 0" "count_events ''retry:exhausted'' new = 1"
        by (simp_all add: count_events_map s(3))
      from s(1) Suc.prems(3) have "res = Inl e" "rt' = rt1" by simp_all
      with s ne c nonnull show ?thesis
        by (intro exI[of _ new]) simp
    next
      case False
      with Suc.prems(2) have lt: "attempt0 + 1 < maxAttempts cfg" by simp
      from loop_retry[OF q lt ex[unfolded Inl] nonnull, of ctx lastError]
      obtain rt1 n1 where s:
        "executeWithRetry_loop subs cfg op ctx attempt0 lastError rt =
           executeWithRetry_loop subs cfg op ctx (attempt0 + 1) e rt1"
        "events rt1 = events rt @ n1"
        "map event n1 = [''retry:attempt'', ''retry:failed'', ''retry:scheduled'']"
        by (elim exE conjE) (rule that; assumption)
      from Suc.prems(1) have k: "k = nat (maxAttempts cfg - (attempt0 + 1))" by simp
      from s(1) Suc.prems(3)
      have rec: "executeWithRetry_loop subs cfg op ctx (attempt0 + 1) e rt1 = (res, rt')"
        by simp
      from Suc.IH[OF k lt rec] obtain new where new:
        "events rt' = events rt1 @ new" "new \<noteq> []"
        "(case res of
            Inr r \<Rightarrow>
              count_events ''retry:success'' new = 1 \<and>
              count_events ''retry:exhausted'' new = 0 \<and>
              event (last new) = ''retry:success'' \<and>
              map_of (eventData (last new)) ''attempt'' =
                Some (Num (Fin (of_int (attempt0 + 1 + int (count_events ''retry:attempt'' new))))) \<and>
              map_of (eventData (last new)) ''result'' = Some r
          | Inl e \<Rightarrow>
              \<not> nullish e \<and>
              count_events ''retry:exhausted'' new = 1 \<and>
              count_events ''retry:success'' new = 0)"
        by (elim exE conjE) (rule that; assumption)
      have c: "count_events ''retry:success'' n1 = 0" "count_events ''retry:exhausted'' n1 = 0"
        "count_events ''retry:attempt'' n1 = 1"
        by (simp_all add: count_events_map s(3))
      have ev: "events rt' = events rt @ (n1 @ new)" by (simp add: new(1) s(2))
      show ?thesis
        using new(2,3) c ev
        by (intro exI[of _ "n1 @ new"]) (auto split: sum.splits)
    qed
  qed
qed

text \<open>On a quiet bus a run that enters the loop body never throws \<open>undefined\<close> or
  \<open>null\<close>, and an operation that rejects on every call makes it throw.\<close>

lemma loop_throws_value:
  assumes q: "quiet subs"
  shows "k = nat (maxAttempts cfg - attempt0) \<Longrightarrow> attempt0 < maxAttempts cfg \<Longrightarrow>
   executeWithRetry_loop subs cfg op ctx attempt0 lastError rt = (Inl v, rt') \<Longrightarrow>
   \<not> nullish v"
proof (induction k arbitrary: attempt0 lastError rt)
  case 0
  then show ?case by simp
next
  case (Suc k)
  obtain out w where ex: "execute op (world rt) = (out, w)"
    by (cases "execute op (world rt)")
  show ?case
  proof (cases out)
    case (Inr r)
    from loop_success[OF q Suc.prems(2) ex[unfolded Inr], of ctx lastError]
    obtain rt1 where "executeWithRetry_loop subs cfg op ctx attempt0 lastError rt = (Inr r, rt1)"
      by (elim exE conjE) (rule that; assumption)
    with Suc.prems(3) show ?thesis by simp
  next
    case (Inl e)
    show ?thesis
    proof (cases "nullish e")
      case True
      from loop_type_error[OF q Suc.prems(2) ex[unfolded Inl] True, of ctx lastError]
      obtain rt1 te where
        "executeWithRetry_loop subs cfg op ctx attempt0 lastError rt = (Inl (Error_val te), rt1)"
        by (elim exE conjE) (rule that; assumption)
      with Suc.prems(3) have "v = Error_val te" by simp
      then show ?thesis by simp
    next
      case nonnull: False
      show ?thesis
      proof (cases "attempt0 + 1 = maxAttempts cfg")
        case True
        from loop_exhausted[OF q True ex[unfolded Inl] nonnull, of ctx lastError]
        obtain rt1 where
          "executeWithRetry_loop subs cfg op ctx attempt0 lastError rt = (Inl e, rt1)"
          by (elim exE conjE) (rule that; assumption)
        with Suc.prems(3) have "v = e" by simp
        with nonnull show ?thesis by simp
      next
        case False
        with Suc.prems(2) have lt: "attempt0 + 1 < maxAttempts cfg" by simp
        from loop_retry[OF q lt ex[unfolded Inl] nonnull, of ctx lastError]
        obtain rt1 where
          "executeWithRetry_loop subs cfg op ctx attempt0 lastError rt =
             executeWithRetry_loop subs cfg op ctx (attempt0 + 1) e rt1"
          by (elim exE conjE) (rule that; assumption)
        with Suc.prems(3)
        have rec: "executeWithRetry_loop subs cfg op ctx (attempt0 + 1) e rt1 = (Inl v, rt')"
          by simp
        from Suc.prems(1) have k: "k = nat (maxAttempts cfg - (attempt0 + 1))" by simp
        from Suc.IH[OF k lt rec] show ?thesis .
      qed
    qed
  qed
qed

lemma executeWithRetry_throws_value:
  assumes "quiet subs" and "1 \<le> maxAttempts cfg"
      and "executeWithRetry subs cfg op ctx rt = (Inl v, rt')"
  shows "\<not> nullish v"
  using loop_throws_value[OF assms(1) refl, of 0 cfg op ctx Undefined rt v rt'] assms(2,3)
  by (simp add: executeWithRetry_def)

lemma loop_always_fails:
  assumes q: "quiet subs"
      and fails: "\<forall>w. \<exists>e w'. execute op w = (Inl e, w')"
  shows "k = nat (maxAttempts cfg - attempt0) \<Longrightarrow> attempt0 < maxAttempts cfg \<Longrightarrow>
         \<exists>v rt'. executeWithRetry_loop subs cfg op ctx attempt0 lastError rt = (Inl v, rt')"
proof (induction k arbitrary: attempt0 lastError rt)
  case 0
  then show ?case by simp
next
  case (Suc k)
  from fails obtain e w where ex: "execute op (world rt) = (Inl e, w)" by blast
  show ?case
  proof (cases "nullish e")
    case True
    from loop_type_error[OF q Suc.prems(2) ex True, of ctx lastError]
    obtain rt1 te where
      "executeWithRetry_loop subs cfg op ctx attempt0 lastError rt = (Inl (Error_val te), rt1)"
      by (elim exE conjE) (rule that; assumption)
    then show ?thesis by (intro exI)
  next
    case nonnull: False
    show ?thesis
    proof (cases "attempt0 + 1 = maxAttempts cfg")
      case True
      from loop_exhausted[OF q True ex nonnull, of ctx lastError]
      obtain rt1 where
        "executeWithRetry_loop subs cfg op ctx attempt0 lastError rt = (Inl e, rt1)"
        by (elim exE conjE) (rule that; assumption)
      then show ?thesis by (intro exI)
    next
      case False
      with Suc.prems(2) have lt: "attempt0 + 1 < maxAttempts cfg" by simp
      from loop_retry[OF q lt ex nonnull, of ctx lastError]
      obtain rt1 where s:
        "executeWithRetry_loop subs cfg op ctx attempt0 lastError rt =
           executeWithRetry_loop subs cfg op ctx (attempt0 + 1) e rt1"
        by (elim exE conjE) (rule that; assumption)
      from Suc.prems(1) have k: "k = nat (maxAttempts cfg - (attempt0 + 1))" by simp
      from Suc.IH[OF k lt, of e rt1] s show ?thesis by simp
    qed
  qed
qed

lemma executeWithRetry_always_fails:
  assumes "quiet subs" and "\<forall>w. \<exists>e w'. execute op w = (Inl e, w')"
      and "1 \<le> maxAttempts cfg"
  shows "\<exists>v rt'. executeWithRetry subs cfg op ctx rt = (Inl v, rt')"
  unfolding executeWithRetry_def
  using loop_always_fails[OF assms(1,2) refl, of 0 cfg] assms(3) by simp

lemma quiet_no_throw: "quiet no_throw"
  by (simp add: quiet_def no_throw_def)

lemmas run_defs =
  executeWithRetry_def executeWithRetry_loop.simps executeWithRetry_try_def
  executeWithRetry_catch_def publish_def RetryService_config_def Let_def published_def
  example_runtime_def no_throw_def Error_val_def

subsection \<open>The drain loop\<close>

lemma or_num_0: "or_num x (0::nat) = (case x of None \<Rightarrow> 0 | Some k \<Rightarrow> k)"
  by (cases x) (simp_all add: or_num_def)

lemma map_of_remove:
  "map_of (pending (remove r q)) ref = (if ref = r then None else map_of (pending q) ref)"
proof -
  have "map_of (filter (\<lambda>(r', item). r' \<noteq> r) xs) ref =
      (if ref = r then None else map_of xs ref)" for xs :: "(nat \<times> 'a RetryQueueItem) list"
    by (induction xs) auto
  then show ?thesis by (simp add: remove_def)
qed

lemma queue_loop_append:
  "processRetryQueue_loop subs cfg (xs @ ys) q ctxs rt =
     (case processRetryQueue_loop subs cfg xs q ctxs rt of
        (Inl e, q1, ctxs1, rt1) \<Rightarrow> (Inl e, q1, ctxs1, rt1)
      | (Inr u, q1, ctxs1, rt1) \<Rightarrow> processRetryQueue_loop subs cfg ys q1 ctxs1 rt1)"
proof (induction xs arbitrary: q ctxs rt)
  case Nil
  show ?case by simp
next
  case (Cons x xs)
  obtain ref item where x: "x = (ref, item)" by (cases x)
  show ?case
    by (simp add: x Cons.IH Let_def split: prod.splits sum.splits option.splits)
qed

lemma queue_loop_success_step:
  assumes "executeWithRetry subs cfg (operation item) (ctxs (context item)) rt = (Inr r, rt1)"
  shows "processRetryQueue_loop subs cfg ((ref, item) # items) q ctxs rt =
           processRetryQueue_loop subs cfg items (remove ref q) ctxs rt1"
  by (simp add: assms)

lemma queue_loop_failed_step:
  assumes "quiet subs"
      and "executeWithRetry subs cfg (operation item) (ctxs (context item)) rt = (Inl e, rt1)"
      and "\<not> nullish e"
      and "n = (case retryCount (ctxs (context item)) of None \<Rightarrow> 0 | Some k \<Rightarrow> k) + 1"
  shows "\<exists>msg. get_prop e ''message'' = Inr msg \<and>
     processRetryQueue_loop subs cfg ((ref, item) # items) q ctxs rt =
     (if maxAttempts (config item) \<le> int n then
        processRetryQueue_loop subs cfg items (remove ref q)
          (set_retryCount (context item) n ctxs)
          (emitEvent ''retry:queue:item:failed''
             [(''operation'', op_name (operation item)),
              (''retryCount'', Num (Fin (real n))),
              (''error'', msg),
              (''timestamp'', Str (now rt1))] rt1)
      else processRetryQueue_loop subs cfg items q (set_retryCount (context item) n ctxs) rt1)"
proof -
  from get_prop_value[OF assms(3), of "''message''"] obtain msg
    where msg: "get_prop e ''message'' = Inr msg" by (elim exE)
  show ?thesis
    unfolding assms(4)
    by (intro exI[of _ msg]) (simp add: assms(2) msg Let_def or_num_0 publish_quiet[OF assms(1)])
qed

lemma queue_loop_returns:
  assumes "quiet subs" and "1 \<le> maxAttempts cfg"
  shows "processRetryQueue_loop subs cfg xs q ctxs rt = (out, q', ctxs', rt') \<Longrightarrow> out = Inr ()"
proof (induction xs arbitrary: q ctxs rt)
  case Nil
  then show ?case by simp
next
  case (Cons x xs)
  obtain ref item where x: "x = (ref, item)" by (cases x)
  obtain res rt1 where
    run: "executeWithRetry subs cfg (operation item) (ctxs (context item)) rt = (res, rt1)"
    by (cases "executeWithRetry subs cfg (operation item) (ctxs (context item)) rt")
  show ?case
  proof (cases res)
    case (Inr r)
    from Cons.prems show ?thesis
      unfolding x queue_loop_success_step[of subs cfg item ctxs rt r rt1, OF run[unfolded Inr]]
      by (rule Cons.IH)
  next
    case (Inl e)
    from executeWithRetry_throws_value[OF assms run[unfolded Inl]] have nn: "\<not> nullish e" .
    from queue_loop_failed_step[of subs cfg item ctxs rt e rt1 _ ref xs q,
        OF assms(1) run[unfolded Inl] nn refl]
    obtain msg where step:
      "processRetryQueue_loop subs cfg ((ref, item) # xs) q ctxs rt =
       (if maxAttempts (config item) \<le>
             int ((case retryCount (ctxs (context item)) of None \<Rightarrow> 0 | Some k \<Rightarrow> k) + 1) then
          processRetryQueue_loop subs cfg xs (remove ref q)
            (set_retryCount (context item)
               ((case retryCount (ctxs (context item)) of None \<Rightarrow> 0 | Some k \<Rightarrow> k) + 1) ctxs)
            (emitEvent ''retry:queue:item:failed''
               [(''operation'', op_name (operation item)),
                (''retryCount'', Num (Fin (real
                   ((case retryCount (ctxs (context item)) of None \<Rightarrow> 0 | Some k \<Rightarrow> k) + 1)))),
                (''error'', msg),
                (''timestamp'', Str (now rt1))] rt1)
        else processRetryQueue_loop subs cfg xs q
            (set_retryCount (context item)
               ((case retryCount (ctxs (context item)) of None \<Rightarrow> 0 | Some k \<Rightarrow> k) + 1) ctxs)
            rt1)"
      by (elim exE conjE) (rule that; assumption)
    from Cons.prems show ?thesis
      unfolding x step by (auto split: if_splits intro: Cons.IH)
  qed
qed

lemma queue_loop_frame:
  "ref \<notin> fst ` set xs \<Longrightarrow>
   processRetryQueue_loop subs cfg xs q ctxs rt = (out, q', ctxs', rt') \<Longrightarrow>
   map_of (pending q') ref = map_of (pending q) ref"
proof (induction xs arbitrary: q ctxs rt)
  case Nil
  then show ?case by simp
next
  case (Cons x xs)
  obtain r item where x: "x = (r, item)" by (cases x)
  with Cons.prems have ne: "ref \<noteq> r" and notin: "ref \<notin> fst ` set xs" by auto
  from Cons.prems(2) x show ?case
    by (auto simp: Let_def map_of_remove ne
        split: prod.splits sum.splits option.splits if_splits
        dest!: Cons.IH[OF notin])
qed

lemma queued_once_eval:
  "pending (fst queued_once) = [(0, queued_item)]"
  by (simp add: queued_once_def queueForRetry_def add_def empty_queue_def queued_item_def
      example_runtime_def publish_def no_throw_def Let_def)

lemmas drain_defs =
  processRetryQueue_def getPending_def run_defs failing_op_def spread_def or_num_def
  empty_context_def example_contexts_def queueForRetry_def add_def empty_queue_def
  remove_def set_retryCount_def

lemma drain_eval:
  "pending (fst (snd (processRetryQueue no_throw (RetryService_config (Some one_attempt))
       (fst queued_once) example_contexts (snd queued_once)))) = []"
  "map event (published (snd queued_once)
     (snd (snd (snd (processRetryQueue no_throw (RetryService_config (Some one_attempt))
       (fst queued_once) example_contexts (snd queued_once)))))) =
   [''retry:attempt'', ''retry:failed'', ''retry:exhausted'', ''retry:queue:item:failed'']"
  by (simp_all add: drain_defs queued_once_def queued_item_def one_attempt_def)

text \<open>
  Two items that share their context object: the first fails and stays queued with
  \<open>retryCount\<close> 1, the second fails, finds \<open>retryCount\<close> 1, sets it to 2 and is
  removed.
\<close>

lemma shared_context_drain:
  "map fst (pending (fst queued_shared)) = [0, 1] \<and>
   map (context \<circ> snd) (pending (fst queued_shared)) = [0, 0] \<and>
   fst (processRetryQueue no_throw (RetryService_config (Some two_attempts))
          (fst queued_shared) example_contexts (snd queued_shared)) = Inr () \<and>
   map fst (pending (fst (snd (processRetryQueue no_throw
          (RetryService_config (Some two_attempts)) (fst queued_shared) example_contexts
          (snd queued_shared))))) = [0] \<and>
   retryCount (fst (snd (snd (processRetryQueue no_throw
          (RetryService_config (Some two_attempts)) (fst queued_shared) example_contexts
          (snd queued_shared)))) 0) = Some 2"
  by (simp add: drain_defs queued_shared_def two_attempts_def delay_def calculateDelay_def
      Math_pow_def fin_Fin)

section \<open>The retry engine\<close>

text \<open>
  Claim C1, as the specification states it, fails. Under the default config
  (\<open>maxAttempts\<close> 3): when the operation rejects with \<open>undefined\<close>, the read
  \<open>error.message\<close> in the \<open>catch\<close> block throws a \<open>TypeError\<close>, which is what the
  call raises, after one \<open>retry:attempt\<close> and without any \<open>retry:exhausted\<close>; and when
  a subscriber of \<open>retry:success\<close> throws on its first delivery, the operation that has
  resolved is run once more, and the call returns after two \<open>retry:success\<close> events.
\<close>

theorem no_exhausted_counterexample:
  "1 \<le> maxAttempts (RetryService_config None) \<and>
   fst (executeWithRetry no_throw (RetryService_config None) rejecting_op empty_context
          example_runtime) = Inl (Error_val (TypeError_read ''undefined'' ''message'')) \<and>
   count_events ''retry:exhausted''
     (published example_runtime
        (snd (executeWithRetry no_throw (RetryService_config None) rejecting_op empty_context
                example_runtime))) = 0 \<and>
   fst (executeWithRetry first_success_throws (RetryService_config None) succeeding_op
          empty_context example_runtime) = Inr (Str ''paid'') \<and>
   count_events ''retry:success''
     (published example_runtime
        (snd (executeWithRetry first_success_throws (RetryService_config None) succeeding_op
                empty_context example_runtime))) = 2"
  by (simp add: run_defs rejecting_op_def succeeding_op_def first_success_throws_def
      subscriber_error_def)

text \<open>
  Claim C1, amended. For every operation that never rejects with \<open>undefined\<close> or
  \<open>null\<close>, on a bus whose subscribers do not throw, and every config with
  \<open>maxAttempts \<ge> 1\<close>: when \<open>executeWithRetry\<close> returns a value it has published exactly
  one \<open>retry:success\<close>, as its last event, carrying the number of the winning attempt
  (the number of \<open>retry:attempt\<close> events published) and the value; when it throws it
  has published exactly one \<open>retry:exhausted\<close>.
\<close>

theorem executeWithRetry_terminal_event:
  assumes "1 \<le> maxAttempts cfg"
      and "quiet subs"
      and "\<forall>w v w'. execute op w = (Inl v, w') \<longrightarrow> \<not> nullish v"
      and "executeWithRetry subs cfg op ctx rt = (res, rt')"
  shows "events rt' = events rt @ published rt rt' \<and>
         (case res of
            Inr r \<Rightarrow>
              count_events ''retry:success'' (published rt rt') = 1 \<and>
              event (last (published rt rt')) = ''retry:success'' \<and>
              map_of (eventData (last (published rt rt'))) ''attempt'' =
                Some (Num (Fin (of_int (int (count_events ''retry:attempt''
                  (published rt rt')))))) \<and>
              map_of (eventData (last (published rt rt'))) ''result'' = Some r
          | Inl e \<Rightarrow>
              count_events ''retry:exhausted'' (published rt rt') = 1)"
proof -
  from assms(1,4) have "0 < maxAttempts cfg"
    and "executeWithRetry_loop subs cfg op ctx 0 Undefined rt = (res, rt')"
    by (simp_all add: executeWithRetry_def)
  from loop_outcome[OF assms(2,3) refl this] obtain new where new:
    "events rt' = events rt @ new"
    "(case res of
        Inr r \<Rightarrow>
          count_events ''retry:success'' new = 1 \<and>
          count_events ''retry:exhausted'' new = 0 \<and>
          event (last new) = ''retry:success'' \<and>
          map_of (eventData (last new)) ''attempt'' =
            Some (Num (Fin (of_int (0 + int (count_events ''retry:attempt'' new))))) \<and>
          map_of (eventData (last new)) ''result'' = Some r
      | Inl e \<Rightarrow>
          \<not> nullish e \<and>
          count_events ''retry:exhausted'' new = 1 \<and>
          count_events ''retry:success'' new = 0)"
    by (elim exE conjE) (rule that; assumption)
  from new(1) have "published rt rt' = new" by (rule published_append)
  with new show ?thesis by (auto split: sum.splits)
qed

theorem executeWithRetry_terminal_event_witness:
  "1 \<le> maxAttempts (RetryService_config None) \<and>
   quiet (no_throw :: emitted list \<Rightarrow> jsval option) \<and>
   fst (executeWithRetry no_throw (RetryService_config None) flaky_op empty_context
          example_runtime) = Inr (Str ''paid'') \<and>
   count_events ''retry:success''
     (published example_runtime
        (snd (executeWithRetry no_throw (RetryService_config None) flaky_op empty_context
                example_runtime))) = 1"
proof -
  let ?run = "executeWithRetry no_throw (RetryService_config None) flaky_op empty_context
      example_runtime"
  have h1: "1 \<le> maxAttempts (RetryService_config None)"
    by (simp add: RetryService_config_def)
  have h2: "quiet (no_throw :: emitted list \<Rightarrow> jsval option)" by (rule quiet_no_throw)
  have h3: "\<forall>w v w'. execute flaky_op w = (Inl v, w') \<longrightarrow> \<not> nullish v"
    by (auto simp: flaky_op_def split: if_splits)
  have h4: "?run = (fst ?run, snd ?run)" by simp
  have r: "fst ?run = Inr (Str ''paid'')"
    by (simp add: run_defs flaky_op_def)
  from executeWithRetry_terminal_event[OF h1 h2 h3 h4] r h1 h2 show ?thesis by simp
qed

text \<open>
  Claim C2, as the specification states it, fails. Under the default config
  (\<open>maxAttempts\<close> 3): an operation that rejects with \<open>undefined\<close> on every call makes
  \<open>executeWithRetry\<close> publish one \<open>retry:attempt\<close> and nothing else, and what it throws
  is not the rejection; and with a subscriber of \<open>retry:failed\<close> that throws, an
  operation that rejects with an \<open>Error\<close> on every call makes it publish
  \<open>retry:attempt\<close> and \<open>retry:failed\<close> once each and throw what the subscriber threw.
\<close>

theorem three_attempts_counterexample:
  "maxAttempts (RetryService_config None) = 3 \<and>
   fst (execute rejecting_op (world example_runtime)) = Inl Undefined \<and>
   fst (executeWithRetry no_throw (RetryService_config None) rejecting_op empty_context
          example_runtime) = Inl (Error_val (TypeError_read ''undefined'' ''message'')) \<and>
   world (snd (executeWithRetry no_throw (RetryService_config None) rejecting_op
                 empty_context example_runtime)) = 1 \<and>
   map event (published example_runtime
        (snd (executeWithRetry no_throw (RetryService_config None) rejecting_op empty_context
                example_runtime))) = [''retry:attempt''] \<and>
   fst (execute failing_op (world example_runtime)) =
     Inl (Error_val (Error ''failure I'')) \<and>
   fst (executeWithRetry failed_throws (RetryService_config None) failing_op empty_context
          example_runtime) = Inl subscriber_error \<and>
   map event (published example_runtime
        (snd (executeWithRetry failed_throws (RetryService_config None) failing_op
                empty_context example_runtime))) = [''retry:attempt'', ''retry:failed'']"
  by (simp add: run_defs rejecting_op_def failing_op_def failed_throws_def
      subscriber_error_def)

text \<open>
  Claim C2, amended. For every operation that rejects on every call, never with
  \<open>undefined\<close> or \<open>null\<close>, on a bus whose subscribers do not throw,
  \<open>executeWithRetry\<close> with \<open>maxAttempts = 3\<close> calls \<open>execute\<close> three times, publishes
  \<open>retry:attempt\<close>, \<open>retry:failed\<close>, \<open>retry:scheduled\<close> twice and then
  \<open>retry:attempt\<close>, \<open>retry:failed\<close>, \<open>retry:exhausted\<close>, and throws the value the
  third call rejected with.
\<close>

theorem always_failing_three_attempts:
  assumes max3: "maxAttempts cfg = 3"
      and q: "quiet subs"
      and fails: "\<forall>w. \<exists>e w'. execute op w = (Inl e, w') \<and> \<not> nullish e"
  shows "\<exists>e1 w1 e2 w2 e3 w3 rt'.
           execute op (world rt) = (Inl e1, w1) \<and>
           execute op w1 = (Inl e2, w2) \<and>
           execute op w2 = (Inl e3, w3) \<and>
           executeWithRetry subs cfg op ctx rt = (Inl e3, rt') \<and>
           events rt' = events rt @ published rt rt' \<and>
           map event (published rt rt') =
             [''retry:attempt'', ''retry:failed'', ''retry:scheduled'',
              ''retry:attempt'', ''retry:failed'', ''retry:scheduled'',
              ''retry:attempt'', ''retry:failed'', ''retry:exhausted''] \<and>
           count_events ''retry:attempt'' (published rt rt') = 3 \<and>
           count_events ''retry:failed'' (published rt rt') = 3 \<and>
           count_events ''retry:scheduled'' (published rt rt') = 2 \<and>
           count_events ''retry:exhausted'' (published rt rt') = 1 \<and>
           world rt' = w3"
proof -
  from fails obtain e1 w1 where x1: "execute op (world rt) = (Inl e1, w1)" "\<not> nullish e1"
    by blast
  from fails obtain e2 w2 where x2: "execute op w1 = (Inl e2, w2)" "\<not> nullish e2" by blast
  from fails obtain e3 w3 where x3: "execute op w2 = (Inl e3, w3)" "\<not> nullish e3" by blast
  have l1: "(0::int) + 1 < maxAttempts cfg" and l2: "(1::int) + 1 < maxAttempts cfg"
    and l3: "(2::int) + 1 = maxAttempts cfg"
    by (simp_all add: max3)
  from loop_retry[OF q l1 x1, of ctx Undefined]
  obtain rt1 n1 where s1:
    "executeWithRetry_loop subs cfg op ctx 0 Undefined rt =
       executeWithRetry_loop subs cfg op ctx (0 + 1) e1 rt1"
    "events rt1 = events rt @ n1"
    "map event n1 = [''retry:attempt'', ''retry:failed'', ''retry:scheduled'']"
    "world rt1 = w1"
    by (elim exE conjE) (rule that; assumption)
  from loop_retry[OF q l2 x2(1)[folded s1(4)] x2(2), of ctx e1]
  obtain rt2 n2 where s2:
    "executeWithRetry_loop subs cfg op ctx 1 e1 rt1 =
       executeWithRetry_loop subs cfg op ctx (1 + 1) e2 rt2"
    "events rt2 = events rt1 @ n2"
    "map event n2 = [''retry:attempt'', ''retry:failed'', ''retry:scheduled'']"
    "world rt2 = w2"
    by (elim exE conjE) (rule that; assumption)
  from loop_exhausted[OF q l3 x3(1)[folded s2(4)] x3(2), of ctx e2]
  obtain rt3 n3 where s3:
    "executeWithRetry_loop subs cfg op ctx 2 e2 rt2 = (Inl e3, rt3)"
    "events rt3 = events rt2 @ n3"
    "map event n3 = [''retry:attempt'', ''retry:failed'', ''retry:exhausted'']"
    "world rt3 = w3"
    by (elim exE conjE) (rule that; assumption)
  have res: "executeWithRetry subs cfg op ctx rt = (Inl e3, rt3)"
    using s1(1) s2(1) s3(1) by (simp add: executeWithRetry_def)
  have ev: "events rt3 = events rt @ (n1 @ n2 @ n3)"
    by (simp add: s1(2) s2(2) s3(2))
  have pub: "published rt rt3 = n1 @ n2 @ n3"
    using ev by (rule published_append)
  have names: "map event (published rt rt3) =
      [''retry:attempt'', ''retry:failed'', ''retry:scheduled'',
       ''retry:attempt'', ''retry:failed'', ''retry:scheduled'',
       ''retry:attempt'', ''retry:failed'', ''retry:exhausted'']"
    by (simp add: pub s1(3) s2(3) s3(3))
  have counts: "count_events ''retry:attempt'' (published rt rt3) = 3"
    "count_events ''retry:failed'' (published rt rt3) = 3"
    "count_events ''retry:scheduled'' (published rt rt3) = 2"
    "count_events ''retry:exhausted'' (published rt rt3) = 1"
    by (simp_all add: count_events_map names)
  show ?thesis
    using x1(1) x2(1) x3(1) res ev pub names counts s3(4)
    by (intro exI[of _ e1] exI[of _ w1] exI[of _ e2] exI[of _ w2] exI[of _ e3] exI[of _ w3]
        exI[of _ rt3]) simp
qed

theorem always_failing_three_attempts_witness:
  "maxAttempts (RetryService_config None) = 3 \<and>
   quiet (no_throw :: emitted list \<Rightarrow> jsval option) \<and>
   (\<forall>w. \<exists>e w'. execute failing_op w = (Inl e, w') \<and> \<not> nullish e) \<and>
   fst (executeWithRetry no_throw (RetryService_config None) failing_op empty_context
          example_runtime) = Inl (Error_val (Error ''failure III''))"
proof -
  have h1: "maxAttempts (RetryService_config None) = 3"
    by (simp add: RetryService_config_def)
  have h2: "quiet (no_throw :: emitted list \<Rightarrow> jsval option)" by (rule quiet_no_throw)
  have h3: "\<forall>w. \<exists>e w'. execute failing_op w = (Inl e, w') \<and> \<not> nullish e"
    by (simp add: failing_op_def)
  from always_failing_three_attempts[OF h1 h2 h3, of example_runtime empty_context]
  have "fst (executeWithRetry no_throw (RetryService_config None) failing_op empty_context
      example_runtime) = Inl (Error_val (Error ''failure III''))"
    by (auto simp: failing_op_def example_runtime_def)
  with h1 h2 h3 show ?thesis by blast
qed

text \<open>
  Claim C6, as the specification states it, fails. Under the default config
  (\<open>maxAttempts\<close> 3): an operation that rejects with \<open>undefined\<close> on its first call and
  resolves on the second is called once, and \<open>executeWithRetry\<close> throws a \<open>TypeError\<close>
  after one \<open>retry:attempt\<close>; and when a subscriber of \<open>retry:success\<close> throws on its
  first delivery, an operation that rejects with an \<open>Error\<close> once and resolves from then
  on is called three times, and two \<open>retry:success\<close> and two \<open>retry:failed\<close> events are
  published.
\<close>

theorem fail_then_succeed_counterexample:
  "2 \<le> maxAttempts (RetryService_config None) \<and>
   fst (execute rejecting_once_op (world example_runtime)) = Inl Undefined \<and>
   fst (execute rejecting_once_op (snd (execute rejecting_once_op (world example_runtime)))) =
     Inr (Str ''paid'') \<and>
   fst (executeWithRetry no_throw (RetryService_config None) rejecting_once_op empty_context
          example_runtime) = Inl (Error_val (TypeError_read ''undefined'' ''message'')) \<and>
   map event (published example_runtime
        (snd (executeWithRetry no_throw (RetryService_config None) rejecting_once_op
                empty_context example_runtime))) = [''retry:attempt''] \<and>
   fst (executeWithRetry first_success_throws (RetryService_config None) flaky_op
          empty_context example_runtime) = Inr (Str ''paid'') \<and>
   map event (published example_runtime
        (snd (executeWithRetry first_success_throws (RetryService_config None) flaky_op
                empty_context example_runtime))) =
     [''retry:attempt'', ''retry:failed'', ''retry:scheduled'',
      ''retry:attempt'', ''retry:success'', ''retry:failed'', ''retry:scheduled'',
      ''retry:attempt'', ''retry:success''] \<and>
   world (snd (executeWithRetry first_success_throws (RetryService_config None) flaky_op
                 empty_context example_runtime)) = 3"
  by (simp add: run_defs rejecting_once_op_def flaky_op_def first_success_throws_def
      subscriber_error_def)

text \<open>
  Claim C6, amended. For every operation whose first call rejects, with a value other
  than \<open>undefined\<close> and \<open>null\<close>, and whose second call resolves, on a bus whose
  subscribers do not throw, \<open>executeWithRetry\<close> with \<open>maxAttempts \<ge> 2\<close> publishes
  \<open>retry:attempt\<close>, \<open>retry:failed\<close>, \<open>retry:scheduled\<close>, \<open>retry:attempt\<close>,
  \<open>retry:success\<close> and nothing else, returns the value of the second call, leaves the
  operation in the state after exactly two calls, and has waited once, for the delay of
  attempt 1.
\<close>

theorem fail_then_succeed:
  assumes max2: "2 \<le> maxAttempts cfg"
      and q: "quiet subs"
      and first: "execute op (world rt) = (Inl e1, w1)"
      and nonnull: "\<not> nullish e1"
      and second: "execute op w1 = (Inr r, w2)"
  shows "\<exists>rt'. executeWithRetry subs cfg op ctx rt = (Inr r, rt') \<and>
           events rt' = events rt @ published rt rt' \<and>
           map event (published rt rt') =
             [''retry:attempt'', ''retry:failed'', ''retry:scheduled'',
              ''retry:attempt'', ''retry:success''] \<and>
           count_events ''retry:attempt'' (published rt rt') = 2 \<and>
           count_events ''retry:failed'' (published rt rt') = 1 \<and>
           count_events ''retry:scheduled'' (published rt rt') = 1 \<and>
           count_events ''retry:success'' (published rt rt') = 1 \<and>
           world rt' = w2 \<and>
           slept rt' = slept rt @ [calculateDelay cfg 1]"
proof -
  from max2 have l1: "(0::int) + 1 < maxAttempts cfg" and l2: "1 < maxAttempts cfg"
    by simp_all
  from loop_retry[OF q l1 first nonnull, of ctx Undefined]
  obtain rt1 n1 where s1:
    "executeWithRetry_loop subs cfg op ctx 0 Undefined rt =
       executeWithRetry_loop subs cfg op ctx (0 + 1) e1 rt1"
    "events rt1 = events rt @ n1"
    "map event n1 = [''retry:attempt'', ''retry:failed'', ''retry:scheduled'']"
    "world rt1 = w1" "slept rt1 = slept rt @ [calculateDelay cfg (0 + 1)]"
    by (elim exE conjE) (rule that; assumption)
  from loop_success[OF q l2 second[folded s1(4)], of ctx e1]
  obtain rt2 n2 where s2:
    "executeWithRetry_loop subs cfg op ctx 1 e1 rt1 = (Inr r, rt2)"
    "events rt2 = events rt1 @ n2"
    "map event n2 = [''retry:attempt'', ''retry:success'']"
    "world rt2 = w2" "slept rt2 = slept rt1"
    by (elim exE conjE) (rule that; assumption)
  have res: "executeWithRetry subs cfg op ctx rt = (Inr r, rt2)"
    using s1(1) s2(1) by (simp add: executeWithRetry_def)
  have ev: "events rt2 = events rt @ (n1 @ n2)"
    by (simp add: s1(2) s2(2))
  have pub: "published rt rt2 = n1 @ n2"
    using ev by (rule published_append)
  have names: "map event (published rt rt2) =
      [''retry:attempt'', ''retry:failed'', ''retry:scheduled'',
       ''retry:attempt'', ''retry:success'']"
    by (simp add: pub s1(3) s2(3))
  have counts: "count_events ''retry:attempt'' (published rt rt2) = 2"
    "count_events ''retry:failed'' (published rt rt2) = 1"
    "count_events ''retry:scheduled'' (published rt rt2) = 1"
    "count_events ''retry:success'' (published rt rt2) = 1"
    by (simp_all add: count_events_map names)
  show ?thesis
    using res ev pub names counts s2(4) s1(5) s2(5)
    by (intro exI[of _ rt2]) simp
qed

theorem fail_then_succeed_witness:
  "2 \<le> maxAttempts (RetryService_config None) \<and>
   quiet (no_throw :: emitted list \<Rightarrow> jsval option) \<and>
   execute flaky_op (world example_runtime) = (Inl (Error_val (Error ''timeout'')), 1) \<and>
   \<not> nullish (Error_val (Error ''timeout'')) \<and>
   execute flaky_op 1 = (Inr (Str ''paid''), 2) \<and>
   fst (executeWithRetry no_throw (RetryService_config None) flaky_op empty_context
          example_runtime) = Inr (Str ''paid'') \<and>
   world (snd (executeWithRetry no_throw (RetryService_config None) flaky_op empty_context
     example_runtime)) = 2"
proof -
  have h1: "2 \<le> maxAttempts (RetryService_config None)"
    by (simp add: RetryService_config_def)
  have h2: "quiet (no_throw :: emitted list \<Rightarrow> jsval option)" by (rule quiet_no_throw)
  have h3: "execute flaky_op (world example_runtime) = (Inl (Error_val (Error ''timeout'')), 1)"
    by (simp add: flaky_op_def example_runtime_def)
  have h4: "\<not> nullish (Error_val (Error ''timeout''))" by simp
  have h5: "execute flaky_op 1 = (Inr (Str ''paid''), 2)"
    by (simp add: flaky_op_def)
  from fail_then_succeed[OF h1 h2 h3 h4 h5, of empty_context] h1 h2 h3 h4 h5 show ?thesis
    by auto
qed

text \<open>
  Claim C10. Under a config whose \<open>maxAttempts\<close> is 0 or less, \<open>executeWithRetry\<close>
  leaves the state as it is, for every operation and whatever the subscribers are
  (nothing is published and \<open>execute\<close> is not called), and throws the unassigned
  \<open>lastError\<close>, that is \<open>undefined\<close>. Such a config is what the constructor builds from
  a supplied \<open>maxAttempts\<close> of that size: the trailing spread writes the supplied value
  over the defaulted one.
\<close>

theorem nonpositive_maxAttempts:
  "(maxAttempts cfg \<le> 0 \<longrightarrow>
      executeWithRetry subs cfg op ctx rt = (Inl Undefined, rt)) \<and>
   (p_maxAttempts c = Some n \<longrightarrow>
      maxAttempts (RetryService_config (Some c)) = n)"
  by (simp add: executeWithRetry_def loop_done RetryService_config_def spread_def)

theorem nonpositive_maxAttempts_witness:
  "p_maxAttempts zero_attempts = Some 0 \<and>
   or_num (p_maxAttempts zero_attempts) 3 = 3 \<and>
   maxAttempts (RetryService_config (Some zero_attempts)) \<le> 0 \<and>
   executeWithRetry failed_throws (RetryService_config (Some zero_attempts)) failing_op
     empty_context example_runtime = (Inl Undefined, example_runtime)"
proof -
  have h1: "p_maxAttempts zero_attempts = Some 0"
    by (simp add: zero_attempts_def)
  have h2: "or_num (p_maxAttempts zero_attempts) 3 = (3::int)"
    by (simp add: zero_attempts_def or_num_def)
  from nonpositive_maxAttempts[of "RetryService_config (Some zero_attempts)" failed_throws
      failing_op empty_context example_runtime zero_attempts 0] h1 h2
  show ?thesis by simp
qed

section \<open>The backoff calculator\<close>

text \<open>
  Claim C4. For every attempt number \<open>a \<ge> 1\<close> and every config, \<open>calculateDelay\<close> is
  the delay of the specification: \<open>min (initialDelay * backoffFactor ^ (a - 1)) maxDelay\<close>
  for \<open>exponential\<close>, \<open>min (initialDelay * a) maxDelay\<close> for \<open>linear\<close>,
  \<open>initialDelay\<close> for \<open>fixed\<close>, and the exponential formula with factor 2 for any other
  strategy.
\<close>

theorem calculateDelay_spec:
  "1 \<le> a \<Longrightarrow> calculateDelay cfg a = spec_delay cfg a"
  by (simp add: calculateDelay_def spec_delay_def Math_pow_nat)

theorem calculateDelay_spec_witness:
  "(1::int) \<le> 3 \<and> calculateDelay (RetryService_config None) 3 = Fin 4000 \<and>
   spec_delay (RetryService_config None) 3 = Fin 4000"
proof -
  have h: "(1::int) \<le> 3" by simp
  have "nat (3 - 1) = 2" by simp
  then have "spec_delay (RetryService_config None) 3 = Fin 4000"
    by (simp add: spec_delay_def RetryService_config_def power_of_def fin_Fin)
  with calculateDelay_spec[OF h, of "RetryService_config None"] show ?thesis by simp
qed

text \<open>
  Claim C5, as the specification states it, fails. The config with \<open>initialDelay\<close> 0,
  \<open>maxDelay\<close> 60000, \<open>backoffFactor\<close> \<open>Number.MAX_VALUE\<close>, strategy \<open>exponential\<close> and
  \<open>maxAttempts\<close> 3 satisfies the constraints; at attempt 3 the power overflows to
  \<open>Infinity\<close>, \<open>0 * Infinity\<close> is \<open>NaN\<close>, \<open>Math.min\<close> returns \<open>NaN\<close>, and
  \<open>NaN <= maxDelay\<close> is false.
\<close>

theorem calculateDelay_NaN_counterexample:
  "js_le (Fin 0) (initialDelay overflowing_config) \<and>
   js_le (initialDelay overflowing_config) (maxDelay overflowing_config) \<and>
   js_lt (Fin 1) (backoffFactor overflowing_config) \<and>
   strategy overflowing_config = ''exponential'' \<and>
   (1::int) \<le> 3 \<and> 3 \<le> maxAttempts overflowing_config \<and>
   calculateDelay overflowing_config 3 = NaN \<and>
   \<not> js_le (calculateDelay overflowing_config 3) (maxDelay overflowing_config)"
  using MAX_VALUE_gt1 Math_pow_MAX_VALUE
  by (simp add: overflowing_config_def calculateDelay_def)

text \<open>
  Claim C5, amended. For every config with \<open>initialDelay \<ge> 0\<close>,
  \<open>maxDelay \<ge> initialDelay\<close> and \<open>backoffFactor > 1\<close>, every strategy among
  \<open>exponential\<close>, \<open>linear\<close> and \<open>fixed\<close>, and all attempts \<open>a \<le> b\<close> in
  \<open>1..maxAttempts\<close>, unless the strategy is \<open>exponential\<close>, \<open>initialDelay\<close> is 0 and
  \<open>backoffFactor ^ (b - 1)\<close> overflows to \<open>Infinity\<close>: the delays of \<open>a\<close> and of \<open>b\<close>
  are at most \<open>maxDelay\<close>, and for \<open>exponential\<close> and \<open>linear\<close> the delay of \<open>a\<close> is
  at most the delay of \<open>b\<close>.
\<close>

theorem calculateDelay_bounded_monotone:
  assumes h1: "js_le (Fin 0) (initialDelay cfg)"
      and h2: "js_le (initialDelay cfg) (maxDelay cfg)"
      and h3: "js_lt (Fin 1) (backoffFactor cfg)"
      and h4: "strategy cfg \<in> {''exponential'', ''linear'', ''fixed''}"
      and a: "1 \<le> a" and ab: "a \<le> b" and b: "b \<le> maxAttempts cfg"
      and ok: "\<not> (strategy cfg = ''exponential'' \<and> initialDelay cfg = Fin 0 \<and>
                  Math_pow (backoffFactor cfg) (b - 1) = PosInf)"
  shows "js_le (calculateDelay cfg a) (maxDelay cfg) \<and>
         js_le (calculateDelay cfg b) (maxDelay cfg) \<and>
         (strategy cfg \<in> {''exponential'', ''linear''} \<longrightarrow>
            js_le (calculateDelay cfg a) (calculateDelay cfg b))"
proof -
  from h1 have i: "ge0 (initialDelay cfg)" by (simp add: ge0_iff)
  from h2 have m: "maxDelay cfg \<noteq> NaN" by (cases "initialDelay cfg"; cases "maxDelay cfg") auto
  from a ab have b1: "1 \<le> b" and k: "0 \<le> a - 1" "a - 1 \<le> b - 1" by simp_all
  have pm: "js_le (Math_pow (backoffFactor cfg) (a - 1)) (Math_pow (backoffFactor cfg) (b - 1))"
    by (rule Math_pow_mono[OF h3 k])
  have oka: "\<not> (strategy cfg = ''exponential'' \<and> initialDelay cfg = Fin 0 \<and>
                  Math_pow (backoffFactor cfg) (a - 1) = PosInf)"
  proof
    assume c: "strategy cfg = ''exponential'' \<and> initialDelay cfg = Fin 0 \<and>
                  Math_pow (backoffFactor cfg) (a - 1) = PosInf"
    with pm have "Math_pow (backoffFactor cfg) (b - 1) = PosInf"
      by (cases "Math_pow (backoffFactor cfg) (b - 1)") auto
    with c ok show False by simp
  qed
  show ?thesis
  proof (cases "strategy cfg = ''fixed''")
    case True
    with h2 show ?thesis by (simp add: calculateDelay_def)
  next
    case False
    with h4 have s: "strategy cfg \<in> {''exponential'', ''linear''}" by auto
    let ?xa = "if strategy cfg = ''exponential''
              then js_times (initialDelay cfg) (Math_pow (backoffFactor cfg) (a - 1))
              else js_times (initialDelay cfg) (Fin (of_int a))"
    let ?xb = "if strategy cfg = ''exponential''
              then js_times (initialDelay cfg) (Math_pow (backoffFactor cfg) (b - 1))
              else js_times (initialDelay cfg) (Fin (of_int b))"
    have ca: "calculateDelay cfg a = Math_min ?xa (maxDelay cfg)"
      and cb: "calculateDelay cfg b = Math_min ?xb (maxDelay cfg)"
      using s by (auto simp: calculateDelay_def)
    have xa: "?xa \<noteq> NaN"
      by (rule ge0_not_NaN[OF calculateDelay_ge0[OF i h3 a oka s]])
    have xb: "?xb \<noteq> NaN"
      by (rule ge0_not_NaN[OF calculateDelay_ge0[OF i h3 b1 ok s]])
    have le: "js_le ?xa ?xb"
    proof (cases "strategy cfg = ''exponential''")
      case True
      from k b1 have "0 \<le> b - 1" by simp
      from js_times_mono[OF i Math_pow_ge1[OF h3 k(1)] Math_pow_ge1[OF h3 this] pm] ok True
      show ?thesis by simp
    next
      case False
      from a ab have "ge1 (Fin (of_int a))" "ge1 (Fin (of_int b))"
        "js_le (Fin (of_int a)) (Fin (of_int b))" by (simp_all add: ge1_alt)
      from js_times_mono[OF i this] False show ?thesis by simp
    qed
    show ?thesis
      unfolding ca cb
      using Math_min_le[OF xa m] Math_min_le[OF xb m] Math_min_mono[OF xa xb m le] by simp
  qed
qed

theorem calculateDelay_bounded_monotone_witness:
  "js_le (Fin 0) (initialDelay (RetryService_config None)) \<and>
   js_le (initialDelay (RetryService_config None)) (maxDelay (RetryService_config None)) \<and>
   js_lt (Fin 1) (backoffFactor (RetryService_config None)) \<and>
   strategy (RetryService_config None) \<in> {''exponential'', ''linear'', ''fixed''} \<and>
   (1::int) \<le> 2 \<and> (2::int) \<le> 3 \<and> 3 \<le> maxAttempts (RetryService_config None) \<and>
   initialDelay (RetryService_config None) \<noteq> Fin 0 \<and>
   js_le (calculateDelay (RetryService_config None) 2) (maxDelay (RetryService_config None)) \<and>
   js_le (calculateDelay (RetryService_config None) 3) (maxDelay (RetryService_config None)) \<and>
   js_le (calculateDelay (RetryService_config None) 2)
     (calculateDelay (RetryService_config None) 3)"
proof -
  let ?cfg = "RetryService_config None"
  have h1: "js_le (Fin 0) (initialDelay ?cfg)"
    and h2: "js_le (initialDelay ?cfg) (maxDelay ?cfg)"
    and h3: "js_lt (Fin 1) (backoffFactor ?cfg)"
    and h4: "strategy ?cfg \<in> {''exponential'', ''linear'', ''fixed''}"
    and b: "3 \<le> maxAttempts ?cfg"
    and ok: "\<not> (strategy ?cfg = ''exponential'' \<and> initialDelay ?cfg = Fin 0 \<and>
               Math_pow (backoffFactor ?cfg) (3 - 1) = PosInf)"
    by (simp_all add: RetryService_config_def)
  have s: "strategy ?cfg = ''exponential''"
    by (simp add: RetryService_config_def)
  have a: "(1::int) \<le> 2" and ab: "(2::int) \<le> 3" by simp_all
  from calculateDelay_bounded_monotone[OF h1 h2 h3 h4 a ab b ok] s
  have "js_le (calculateDelay ?cfg 2) (maxDelay ?cfg) \<and>
      js_le (calculateDelay ?cfg 3) (maxDelay ?cfg) \<and>
      js_le (calculateDelay ?cfg 2) (calculateDelay ?cfg 3)"
    by simp
  moreover have "initialDelay ?cfg \<noteq> Fin 0"
    by (simp add: RetryService_config_def)
  ultimately show ?thesis using h1 h2 h3 h4 a ab b by blast
qed

section \<open>The event bus\<close>

text \<open>
  Claim C9. For every event name and payload object, \<open>emitEvent\<close> hands the bus one
  event of that name whose data has every property of the payload with its value,
  except \<open>_metadata\<close>, which is \<open>{ event, timestamp, source: 'checkout-core' }\<close> whether
  or not the payload had a property of that name.
\<close>

theorem emitEvent_payload:
  "\<exists>e. events (emitEvent ev d rt) = events rt @ [e] \<and> event e = ev \<and>
       map_of (eventData e) =
         (map_of d)(''_metadata'' \<mapsto>
            Obj [(''event'', Str ev), (''timestamp'', Str (now rt)),
                 (''source'', Str ''checkout-core'')])"
  by (simp add: update_conv')

section \<open>The webhook handler\<close>

text \<open>
  Claim C3, as the specification states it, fails: for the provider \<open>stripe\<close> and the
  event type \<open>something.new\<close>, which the Stripe table does not have, the first event
  \<open>routeWebhookEvent\<close> publishes is named \<open>webhook:stripe:something.new\<close>, not
  \<open>stripe:something.new\<close>.
\<close>

theorem fallback_name_counterexample:
  "getEventMap ''stripe'' \<noteq> None \<and>
   map_of (the (getEventMap ''stripe'')) ''something.new'' = None \<and>
   ''something.new'' \<notin> set Object_prototype_keys \<and>
   fst (routeWebhookEvent unreached (no_throw :: emitted list \<Rightarrow> Error option) render_none
          ''stripe'' (Str ''something.new'') Null example_runtime) = Inr () \<and>
   event (hd (published example_runtime
     (snd (routeWebhookEvent unreached (no_throw :: emitted list \<Rightarrow> Error option) render_none
             ''stripe'' (Str ''something.new'') Null example_runtime)))) =
     ''webhook:stripe:something.new'' \<and>
   event (hd (published example_runtime
     (snd (routeWebhookEvent unreached (no_throw :: emitted list \<Rightarrow> Error option) render_none
             ''stripe'' (Str ''something.new'') Null example_runtime)))) \<noteq>
     ''stripe'' @ '':'' @ ''something.new''"
  by (simp add: getEventMap_def js_index_def maps_def Object_prototype_keys_def
      routeWebhookEvent_def internalEvent_def publish_def no_throw_def Let_def
      published_def example_runtime_def)

text \<open>
  Claim C3, amended. For every provider whose event map is one of the two tables or
  the empty object (the provider does not name a property of \<open>Object.prototype\<close>), and
  every event type that has no entry in that map and does not name a property of
  \<open>Object.prototype\<close> either, on a bus whose subscribers do not throw:
  \<open>routeWebhookEvent\<close> does not fail, and the first event it publishes, the internal
  event, which carries the provider and the event type as \<open>originalEvent\<close>, is named
  \<open>webhook\<close>, provider and event type joined by \<open>:\<close>. For \<open>stripe\<close> and
  \<open>something.new\<close> the name is \<open>webhook:stripe:something.new\<close>.
\<close>

theorem routeWebhookEvent_fallback:
  assumes "getEventMap prov = Some eventMap"
      and "map_of eventMap t = None"
      and "t \<notin> set Object_prototype_keys"
      and "quiet subs"
  shows "\<exists>rt' e rest.
           routeWebhookEvent off_table subs num_str prov (Str t) pl rt = (Inr (), rt') \<and>
           events rt' = events rt @ published rt rt' \<and>
           published rt rt' = e # rest \<and>
           event e = ''webhook:'' @ prov @ '':'' @ t \<and>
           map_of (eventData e) ''provider'' = Some (Str prov) \<and>
           map_of (eventData e) ''originalEvent'' = Some (Str t)"
proof -
  from assms(1,2,3) have name:
    "internalEvent num_str prov (Str t) = Some (''webhook:'' @ prov @ '':'' @ t)"
    by (simp add: internalEvent_def js_index_def)
  show ?thesis
    by (simp add: routeWebhookEvent_def name publish_quiet[OF assms(4)] published_def
        update_conv')
qed

theorem routeWebhookEvent_fallback_witness:
  "getEventMap ''stripe'' = Some (the (getEventMap ''stripe'')) \<and>
   map_of (the (getEventMap ''stripe'')) ''something.new'' = None \<and>
   ''something.new'' \<notin> set Object_prototype_keys \<and>
   quiet (no_throw :: emitted list \<Rightarrow> Error option) \<and>
   fst (routeWebhookEvent unreached (no_throw :: emitted list \<Rightarrow> Error option) render_none
          ''stripe'' (Str ''something.new'') Null example_runtime) = Inr () \<and>
   event (hd (published example_runtime
     (snd (routeWebhookEvent unreached (no_throw :: emitted list \<Rightarrow> Error option) render_none
             ''stripe'' (Str ''something.new'') Null example_runtime)))) =
     ''webhook:stripe:something.new''"
proof -
  have h1: "getEventMap ''stripe'' = Some (the (getEventMap ''stripe''))"
    and h2: "map_of (the (getEventMap ''stripe'')) ''something.new'' = None"
    by (simp_all add: getEventMap_def js_index_def maps_def)
  have h3: "''something.new'' \<notin> set Object_prototype_keys"
    by (simp add: Object_prototype_keys_def)
  have h4: "quiet (no_throw :: emitted list \<Rightarrow> Error option)" by (rule quiet_no_throw)
  from routeWebhookEvent_fallback[OF h1 h2 h3 h4, of unreached render_none Null
      example_runtime] h1 h2 h3 h4
  show ?thesis by auto
qed



section \<open>The retry queue\<close>

text \<open>
  Claim C7, as the specification states it, fails. In a service built from
  \<open>{ maxAttempts: 0 }\<close>, the inner \<open>executeWithRetry\<close> of a queued item throws
  \<open>undefined\<close>; \<open>processRetryQueue\<close> sets the item's \<open>retryCount\<close> to 1, removes the
  item, and throws a \<open>TypeError\<close> on the read \<open>error.message\<close>: no
  \<open>retry:queue:item:failed\<close> is published, nor any other event. The same happens in a
  service built from \<open>{ maxAttempts: 1 }\<close> when a subscriber of \<open>retry:exhausted\<close> throws
  \<open>undefined\<close>: the item is removed and \<open>retry:queue:item:failed\<close> is not published.
\<close>

theorem processRetryQueue_counterexample:
  "pending (fst queued_zero) = [(0, zero_item)] \<and>
   maxAttempts (config zero_item) = 0 \<and>
   fst (processRetryQueue no_throw (RetryService_config (Some zero_attempts))
          (fst queued_zero) example_contexts (snd queued_zero)) =
     Inl (Error_val (TypeError_read ''undefined'' ''message'')) \<and>
   pending (fst (snd (processRetryQueue no_throw (RetryService_config (Some zero_attempts))
          (fst queued_zero) example_contexts (snd queued_zero)))) = [] \<and>
   retryCount (fst (snd (snd (processRetryQueue no_throw
          (RetryService_config (Some zero_attempts)) (fst queued_zero) example_contexts
          (snd queued_zero)))) 0) = Some 1 \<and>
   published (snd queued_zero)
     (snd (snd (snd (processRetryQueue no_throw (RetryService_config (Some zero_attempts))
          (fst queued_zero) example_contexts (snd queued_zero))))) = [] \<and>
   pending (fst queued_once) = [(0, queued_item)] \<and>
   maxAttempts (config queued_item) = 1 \<and>
   fst (processRetryQueue exhausted_throws (RetryService_config (Some one_attempt))
          (fst queued_once) example_contexts (snd queued_once)) =
     Inl (Error_val (TypeError_read ''undefined'' ''message'')) \<and>
   pending (fst (snd (processRetryQueue exhausted_throws
          (RetryService_config (Some one_attempt)) (fst queued_once) example_contexts
          (snd queued_once)))) = [] \<and>
   map event (published (snd queued_once)
     (snd (snd (snd (processRetryQueue exhausted_throws
          (RetryService_config (Some one_attempt)) (fst queued_once) example_contexts
          (snd queued_once)))))) = [''retry:attempt'', ''retry:failed'', ''retry:exhausted'']"
  by (simp add: drain_defs queued_zero_def zero_item_def zero_attempts_def queued_once_def
      queued_item_def one_attempt_def exhausted_throws_def)

text \<open>
  Claim C7, amended. In one call of \<open>processRetryQueue\<close> of a service whose config has
  \<open>maxAttempts \<ge> 1\<close>, on a bus whose subscribers do not throw, for every item of the
  queue (items have distinct identities; their context objects may be shared): the
  call returns, and with \<open>res\<close> the outcome of the item's \<open>executeWithRetry\<close>, run in the
  state the items before it leave behind, and \<open>n\<close> the \<open>retryCount\<close> of the item's
  context object at that moment (0 when absent) plus one,
  \<^item> when \<open>res\<close> is a value, the item is no longer in the queue after the call, and the
    context objects are as they were;
  \<^item> when \<open>res\<close> is an error, the \<open>retryCount\<close> of the item's context object is set
    to \<open>n\<close>, and
    \<^item> if \<open>n \<ge> config.maxAttempts\<close> of the item, the item is no longer in the queue
      after the call, and exactly one event, \<open>retry:queue:item:failed\<close> with
      \<open>retryCount = n\<close>, is published between the item's run and the processing of the
      items after it;
    \<^item> otherwise the item is still queued after the call, and nothing is published
      between its run and the processing of the items after it.
  For an item whose operation rejects on every call and whose \<open>config.maxAttempts\<close> is
  1, \<open>res\<close> is an error and \<open>n \<ge> config.maxAttempts\<close>: the item is removed and
  \<open>retry:queue:item:failed\<close> is published.
\<close>

theorem processRetryQueue_item:
  assumes pend: "pending q = before @ (ref, item) # after"
      and dist: "distinct (map fst (pending q))"
      and max1: "1 \<le> maxAttempts this_cfg"
      and q: "quiet subs"
      and bef: "processRetryQueue_loop subs this_cfg before q ctxs rt = (out0, q0, ctxs0, rt0)"
      and run: "executeWithRetry subs this_cfg (operation item) (ctxs0 (context item)) rt0 =
                  (res, rt1)"
      and fin: "processRetryQueue subs this_cfg q ctxs rt = (out, q', ctxs', rt')"
      and n: "n = (case retryCount (ctxs0 (context item)) of None \<Rightarrow> 0 | Some k \<Rightarrow> k) + 1"
  shows "out = Inr () \<and>
     (case res of
        Inr r \<Rightarrow>
          map_of (pending q') ref = None \<and>
          (\<exists>q2. processRetryQueue_loop subs this_cfg after q2 ctxs0 rt1 = (out, q', ctxs', rt'))
      | Inl e \<Rightarrow>
          retryCount (set_retryCount (context item) n ctxs0 (context item)) = Some n \<and>
          (if maxAttempts (config item) \<le> int n then
             map_of (pending q') ref = None \<and>
             (\<exists>ev q2 rt2. event ev = ''retry:queue:item:failed'' \<and>
                map_of (eventData ev) ''retryCount'' = Some (Num (Fin (real n))) \<and>
                events rt2 = events rt1 @ [ev] \<and>
                processRetryQueue_loop subs this_cfg after q2
                  (set_retryCount (context item) n ctxs0) rt2 = (out, q', ctxs', rt'))
           else
             map_of (pending q') ref = Some item \<and>
             (\<exists>q2. processRetryQueue_loop subs this_cfg after q2
                  (set_retryCount (context item) n ctxs0) rt1 = (out, q', ctxs', rt')))) \<and>
     ((\<forall>w. \<exists>e w'. execute (operation item) w = (Inl e, w')) \<and>
      maxAttempts (config item) = 1 \<longrightarrow>
        (\<exists>e. res = Inl e) \<and> maxAttempts (config item) \<le> int n \<and>
        map_of (pending q') ref = None \<and>
        (\<exists>ev q2 rt2. event ev = ''retry:queue:item:failed'' \<and>
           events rt2 = events rt1 @ [ev] \<and>
           processRetryQueue_loop subs this_cfg after q2
             (set_retryCount (context item) n ctxs0) rt2 = (out, q', ctxs', rt')))"
proof -
  from pend dist have nb: "ref \<notin> fst ` set before" and na: "ref \<notin> fst ` set after"
    by auto
  from pend nb have entry: "map_of (pending q) ref = Some item"
    by (simp add: map_of_append map_add_def map_of_eq_None_iff[THEN iffD2] split: option.splits)
  from queue_loop_returns[OF q max1 bef] have out0: "out0 = Inr ()" .
  from queue_loop_frame[OF nb bef] entry have entry0: "map_of (pending q0) ref = Some item"
    by simp
  have whole: "processRetryQueue_loop subs this_cfg ((ref, item) # after) q0 ctxs0 rt0 =
      (out, q', ctxs', rt')"
    using fin bef out0
    by (simp add: processRetryQueue_def getPending_def pend queue_loop_append
        del: processRetryQueue_loop.simps)
  from fin have out: "out = Inr ()"
    unfolding processRetryQueue_def by (rule queue_loop_returns[OF q max1])
  have count: "retryCount (set_retryCount (context item) n ctxs0 (context item)) = Some n"
    by (simp add: set_retryCount_def)
  have main: "(case res of
        Inr r \<Rightarrow>
          map_of (pending q') ref = None \<and>
          (\<exists>q2. processRetryQueue_loop subs this_cfg after q2 ctxs0 rt1 = (out, q', ctxs', rt'))
      | Inl e \<Rightarrow>
          retryCount (set_retryCount (context item) n ctxs0 (context item)) = Some n \<and>
          (if maxAttempts (config item) \<le> int n then
             map_of (pending q') ref = None \<and>
             (\<exists>ev q2 rt2. event ev = ''retry:queue:item:failed'' \<and>
                map_of (eventData ev) ''retryCount'' = Some (Num (Fin (real n))) \<and>
                events rt2 = events rt1 @ [ev] \<and>
                processRetryQueue_loop subs this_cfg after q2
                  (set_retryCount (context item) n ctxs0) rt2 = (out, q', ctxs', rt'))
           else
             map_of (pending q') ref = Some item \<and>
             (\<exists>q2. processRetryQueue_loop subs this_cfg after q2
                  (set_retryCount (context item) n ctxs0) rt1 = (out, q', ctxs', rt'))))"
  proof (cases res)
    case (Inr r)
    from whole have rest:
      "processRetryQueue_loop subs this_cfg after (remove ref q0) ctxs0 rt1 =
         (out, q', ctxs', rt')"
      unfolding queue_loop_success_step[of subs this_cfg item ctxs0 rt0 r rt1,
          OF run[unfolded Inr]] .
    from queue_loop_frame[OF na rest] have "map_of (pending q') ref = None"
      by (simp add: map_of_remove)
    with rest Inr show ?thesis by auto
  next
    case (Inl e)
    from executeWithRetry_throws_value[OF q max1 run[unfolded Inl]] have nn: "\<not> nullish e" .
    from queue_loop_failed_step[of subs this_cfg item ctxs0 rt0 e rt1 n ref after q0,
        OF q run[unfolded Inl] nn n]
    obtain msg where step:
      "processRetryQueue_loop subs this_cfg ((ref, item) # after) q0 ctxs0 rt0 =
       (if maxAttempts (config item) \<le> int n then
          processRetryQueue_loop subs this_cfg after (remove ref q0)
            (set_retryCount (context item) n ctxs0)
            (emitEvent ''retry:queue:item:failed''
               [(''operation'', op_name (operation item)),
                (''retryCount'', Num (Fin (real n))),
                (''error'', msg),
                (''timestamp'', Str (now rt1))] rt1)
        else processRetryQueue_loop subs this_cfg after q0
            (set_retryCount (context item) n ctxs0) rt1)"
      by (elim exE conjE) (rule that; assumption)
    show ?thesis
    proof (cases "maxAttempts (config item) \<le> int n")
      case True
      define ev where "ev = \<lparr>event = ''retry:queue:item:failed'',
        eventData = AList.update ''_metadata''
          (Obj [(''event'', Str ''retry:queue:item:failed''), (''timestamp'', Str (now rt1)),
                (''source'', Str ''checkout-core'')])
          [(''operation'', op_name (operation item)),
           (''retryCount'', Num (Fin (real n))),
           (''error'', msg),
           (''timestamp'', Str (now rt1))]\<rparr>"
      define rt2 where "rt2 = emitEvent ''retry:queue:item:failed''
          [(''operation'', op_name (operation item)),
           (''retryCount'', Num (Fin (real n))),
           (''error'', msg),
           (''timestamp'', Str (now rt1))] rt1"
      from whole True have rest:
        "processRetryQueue_loop subs this_cfg after (remove ref q0)
           (set_retryCount (context item) n ctxs0) rt2 = (out, q', ctxs', rt')"
        unfolding rt2_def step by simp
      from queue_loop_frame[OF na rest] have gone: "map_of (pending q') ref = None"
        by (simp add: map_of_remove)
      have "event ev = ''retry:queue:item:failed''"
        and "map_of (eventData ev) ''retryCount'' = Some (Num (Fin (real n)))"
        and "events rt2 = events rt1 @ [ev]"
        by (simp_all add: ev_def rt2_def)
      with rest gone Inl True count show ?thesis by auto
    next
      case False
      from whole False have rest:
        "processRetryQueue_loop subs this_cfg after q0
           (set_retryCount (context item) n ctxs0) rt1 = (out, q', ctxs', rt')"
        unfolding step by simp
      from queue_loop_frame[OF na rest] entry0
      have "map_of (pending q') ref = Some item" by simp
      with rest Inl False count show ?thesis by auto
    qed
  qed
  have special: "(\<forall>w. \<exists>e w'. execute (operation item) w = (Inl e, w')) \<and>
      maxAttempts (config item) = 1 \<longrightarrow>
        (\<exists>e. res = Inl e) \<and> maxAttempts (config item) \<le> int n"
  proof (intro impI conjI)
    assume a: "(\<forall>w. \<exists>e w'. execute (operation item) w = (Inl e, w')) \<and>
      maxAttempts (config item) = 1"
    then have "\<forall>w. \<exists>e w'. execute (operation item) w = (Inl e, w')" by simp
    from executeWithRetry_always_fails[OF q this max1, of "ctxs0 (context item)" rt0] run
    show "\<exists>e. res = Inl e" by auto
    from a n show "maxAttempts (config item) \<le> int n" by simp
  qed
  have particular:
    "(\<forall>w. \<exists>e w'. execute (operation item) w = (Inl e, w')) \<and>
      maxAttempts (config item) = 1 \<longrightarrow>
        map_of (pending q') ref = None \<and>
        (\<exists>ev q2 rt2. event ev = ''retry:queue:item:failed'' \<and>
           events rt2 = events rt1 @ [ev] \<and>
           processRetryQueue_loop subs this_cfg after q2
             (set_retryCount (context item) n ctxs0) rt2 = (out, q', ctxs', rt'))"
  proof
    assume "(\<forall>w. \<exists>e w'. execute (operation item) w = (Inl e, w')) \<and>
      maxAttempts (config item) = 1"
    with special obtain e where res: "res = Inl e"
      and le: "maxAttempts (config item) \<le> int n" by blast
    from main have "map_of (pending q') ref = None \<and>
        (\<exists>ev q2 rt2. event ev = ''retry:queue:item:failed'' \<and>
           map_of (eventData ev) ''retryCount'' = Some (Num (Fin (real n))) \<and>
           events rt2 = events rt1 @ [ev] \<and>
           processRetryQueue_loop subs this_cfg after q2
             (set_retryCount (context item) n ctxs0) rt2 = (out, q', ctxs', rt'))"
      unfolding res using le by simp
    then show "map_of (pending q') ref = None \<and>
        (\<exists>ev q2 rt2. event ev = ''retry:queue:item:failed'' \<and>
           events rt2 = events rt1 @ [ev] \<and>
           processRetryQueue_loop subs this_cfg after q2
             (set_retryCount (context item) n ctxs0) rt2 = (out, q', ctxs', rt'))"
      by blast
  qed
  from out main special particular show ?thesis by blast
qed

theorem processRetryQueue_item_witness:
  "pending (fst queued_once) = [] @ (0, queued_item) # [] \<and>
   distinct (map fst (pending (fst queued_once))) \<and>
   1 \<le> maxAttempts (RetryService_config (Some one_attempt)) \<and>
   quiet (no_throw :: emitted list \<Rightarrow> jsval option) \<and>
   (\<forall>w. \<exists>e w'. execute (operation queued_item) w = (Inl e, w')) \<and>
   maxAttempts (config queued_item) = 1 \<and>
   map_of (pending (fst (snd (processRetryQueue no_throw
       (RetryService_config (Some one_attempt)) (fst queued_once) example_contexts
       (snd queued_once))))) 0 = None \<and>
   map event (published (snd queued_once)
     (snd (snd (snd (processRetryQueue no_throw (RetryService_config (Some one_attempt))
       (fst queued_once) example_contexts (snd queued_once)))))) =
   [''retry:attempt'', ''retry:failed'', ''retry:exhausted'', ''retry:queue:item:failed'']"
proof -
  let ?cfg = "RetryService_config (Some one_attempt)"
  let ?run = "executeWithRetry no_throw ?cfg (operation queued_item)
      (example_contexts (context queued_item)) (snd queued_once)"
  let ?fin = "processRetryQueue no_throw ?cfg (fst queued_once) example_contexts
      (snd queued_once)"
  have p: "pending (fst queued_once) = [] @ (0, queued_item) # []"
    by (simp add: queued_once_eval)
  have d: "distinct (map fst (pending (fst queued_once)))"
    by (simp add: queued_once_eval)
  have m: "1 \<le> maxAttempts ?cfg"
    by (simp add: RetryService_config_def one_attempt_def spread_def)
  have qu: "quiet (no_throw :: emitted list \<Rightarrow> jsval option)" by (rule quiet_no_throw)
  have b: "processRetryQueue_loop no_throw ?cfg [] (fst queued_once) example_contexts
      (snd queued_once) = (Inr (), fst queued_once, example_contexts, snd queued_once)"
    by simp
  have r: "?run = (fst ?run, snd ?run)" by simp
  have f: "?fin = (fst ?fin, fst (snd ?fin), fst (snd (snd ?fin)), snd (snd (snd ?fin)))"
    by simp
  have n: "1 = (case retryCount (example_contexts (context queued_item)) of
      None \<Rightarrow> 0 | Some k \<Rightarrow> k) + 1"
    by (simp add: queued_item_def empty_context_def example_contexts_def)
  have fails: "\<forall>w. \<exists>e w'. execute (operation queued_item) w = (Inl e, w')"
    by (simp add: queued_item_def failing_op_def)
  have one: "maxAttempts (config queued_item) = 1"
    by (simp add: queued_item_def RetryService_config_def one_attempt_def spread_def)
  from processRetryQueue_item[of "fst queued_once" "[]" 0 queued_item "[]" ?cfg no_throw
      example_contexts "snd queued_once" "Inr ()" "fst queued_once" example_contexts
      "snd queued_once" "fst ?run" "snd ?run" "fst ?fin" "fst (snd ?fin)"
      "fst (snd (snd ?fin))" "snd (snd (snd ?fin))" 1, OF p d m qu b r f n] fails one
  have "map_of (pending (fst (snd ?fin))) 0 = None"
    by (auto split: sum.splits if_splits)
  with p d m qu fails one drain_eval(2) show ?thesis by blast
qed

end
